theory Spec2Isabelle
  imports Main "HOL-Library.Sublist"
begin

section \<open>Python strings\<close>

text \<open>
  A Python \<open>str\<close> is modelled as a \<open>string\<close>, each \<open>char\<close> read as one code point
  below 256 (Latin-1). The string methods the program calls are written out on that range.
\<close>

definition is_space :: "char \<Rightarrow> bool" where
  \<comment> \<open>the characters \<open>str.strip()\<close> removes: \<open>str.isspace\<close> on code points below 256\<close>
  "is_space c =
     (let n = (of_char c :: nat)
      in (9 \<le> n \<and> n \<le> 13) \<or> (28 \<le> n \<and> n \<le> 32) \<or> n = 133 \<or> n = 160)"

definition py_strip :: "string \<Rightarrow> string" where
  \<comment> \<open>\<open>s.strip()\<close>\<close>
  "py_strip s = rev (dropWhile is_space (rev (dropWhile is_space s)))"

definition lower_char :: "char \<Rightarrow> char" where
  \<comment> \<open>\<open>c.lower()\<close>: A-Z and the Latin-1 capitals (all of C0-DE but the multiplication sign)\<close>
  "lower_char c =
     (let n = (of_char c :: nat)
      in if (65 \<le> n \<and> n \<le> 90) \<or> (192 \<le> n \<and> n \<le> 222 \<and> n \<noteq> 215)
         then char_of (n + 32) else c)"

definition py_lower :: "string \<Rightarrow> string" where
  \<comment> \<open>\<open>s.lower()\<close>\<close>
  "py_lower s = map lower_char s"

definition replace_space :: "string \<Rightarrow> string \<Rightarrow> string" where
  \<comment> \<open>\<open>s.replace(' ', new)\<close>\<close>
  "replace_space new s = concat (map (\<lambda>c. if c = CHR '' '' then new else [c]) s)"

definition startswith :: "string \<Rightarrow> string \<Rightarrow> bool" where
  \<comment> \<open>\<open>s.startswith(p)\<close>\<close>
  "startswith s p = prefix p s"

fun py_in :: "string \<Rightarrow> string \<Rightarrow> bool" where
  \<comment> \<open>\<open>p in s\<close> on strings: \<open>p\<close> occurs in \<open>s\<close> as a contiguous run\<close>
  "py_in p [] = (p = [])"
| "py_in p (c # cs) = (prefix p (c # cs) \<or> py_in p cs)"

fun str_nat :: "nat \<Rightarrow> string" where
  \<comment> \<open>\<open>str(n)\<close> of a non-negative integer: its decimal digits\<close>
  "str_nat n =
     (if n < 10 then [char_of (48 + n)]
      else str_nat (n div 10) @ [char_of (48 + n mod 10)])"

declare str_nat.simps [simp del]

section \<open>Configuration\<close>

definition COLUMNS :: "string list" where
  "COLUMNS =
     [''Company Name'', ''Website URL'', ''Linkedin URL'', ''Careers Page URL'',
      ''Job listings page URL'', ''Provider'',
      ''job post1 URL'', ''job post1 title'', ''job post1 location'', ''job post1 date'',
      ''job post2 URL'', ''job post2 title'', ''job post2 location'', ''job post2 date'',
      ''job post3 URL'', ''job post3 title'', ''job post3 location'', ''job post3 date'']"

definition CAREERS_KEYWORDS :: "string list" where
  "CAREERS_KEYWORDS = [''career'', ''careers'', ''jobs'', ''join'']"

definition ATS_PATTERNS :: "(string \<times> string) list" where
  \<comment> \<open>a dict literal, iterated by \<open>.items()\<close> in insertion order\<close>
  "ATS_PATTERNS =
     [(''Personio'', ''personio.com''),
      (''Teamtailor'', ''teamtailor.com''),
      (''Zoho Recruit'', ''zohorecruit.com''),
      (''Lever'', ''lever.co''),
      (''Greenhouse'', ''greenhouse.io'')]"

definition TLDS :: "string list" where
  \<comment> \<open>the list literal of the loop in \<open>process_company\<close>\<close>
  "TLDS = [''com'', ''org'', ''io'', ''ai'', ''net'', ''co'']"

definition ROLE_KEYWORDS :: "string list" where
  \<comment> \<open>the alternatives of the regular expression in \<open>scrape_jobs_simple\<close>\<close>
  "ROLE_KEYWORDS =
     [''engineer'', ''manager'', ''developer'', ''analyst'', ''designer'', ''specialist'',
      ''intern'', ''consultant'', ''coordinator'', ''technician'']"

section \<open>The network and the libraries\<close>

text \<open>
  The program talks to the network through \<open>requests.get\<close> and \<open>requests.head\<close>. A call
  either raises or returns a response, of which the program reads \<open>status_code\<close> and
  \<open>text\<close>. The network is a function of the request and of every request made before it,
  so the same URL may answer differently later in a run; the list of requests made is
  the state the program threads.
\<close>

datatype http_method = GET | HEAD

type_synonym request = "http_method \<times> string"

record response =
  status_code :: int
  resp_text :: string

datatype outcome = Raises | Returns response

type_synonym network = "request list \<Rightarrow> request \<Rightarrow> outcome"

definition response_ok :: "response \<Rightarrow> bool" where
  \<comment> \<open>the truth value of a response object (\<open>if resp:\<close>, \<open>if not r:\<close>): false on a
      status in 400..599; \<open>None\<close> is false\<close>
  "response_ok r = (\<not> (400 \<le> status_code r \<and> status_code r < 600))"

text \<open>
  The HTML parser and \<open>urljoin\<close> are library functions, taken as parameters.
  \<open>select_a_href html\<close> stands for \<open>BeautifulSoup(html, "lxml").select("a[href]")\<close>: the
  anchors that have an href, in document order, each with its href attribute and its
  \<open>get_text(" ", strip=True)\<close>. \<open>urljoin\<close> can raise \<open>ValueError\<close> (the standard library
  does on a reference such as \<open>//[x\<close>, whose host opens a bracket it never closes).
\<close>

record anchor =
  a_href :: string
  a_text :: string

datatype error = ValueError

record library =
  select_a_href :: "string \<Rightarrow> anchor list"
  urljoin :: "string \<Rightarrow> string \<Rightarrow> error + string"

section \<open>Helpers\<close>

definition safe_get :: "network \<Rightarrow> request list \<Rightarrow> string \<Rightarrow> response option \<times> request list" where
  "safe_get net log url =
     (case net log (GET, url) of
        Raises \<Rightarrow> (None, log @ [(GET, url)])
      | Returns r \<Rightarrow>
          if status_code r < 400 then (Some r, log @ [(GET, url)])
          else (None, log @ [(GET, url)]))"

definition head_ok :: "network \<Rightarrow> request list \<Rightarrow> string \<Rightarrow> bool \<times> request list" where
  "head_ok net log url =
     (case net log (HEAD, url) of
        Raises \<Rightarrow> (False, log @ [(HEAD, url)])
      | Returns r \<Rightarrow> (status_code r < 400, log @ [(HEAD, url)]))"

fun find_careers_loop :: "library \<Rightarrow> string \<Rightarrow> anchor list \<Rightarrow> error + string" where
  "find_careers_loop lib base_url [] = Inr []"
| "find_careers_loop lib base_url (a # as) =
     (let href = py_strip (a_href a);
          text = py_lower (a_text a)
      in if list_ex (\<lambda>kw. py_in kw (py_lower href) \<or> py_in kw text) CAREERS_KEYWORDS
         then (if \<not> startswith href ''http'' then urljoin lib base_url href else Inr href)
         else find_careers_loop lib base_url as)"

definition find_careers :: "library \<Rightarrow> string \<Rightarrow> string \<Rightarrow> error + string" where
  "find_careers lib base_url html = find_careers_loop lib base_url (select_a_href lib html)"

fun detect_ats_loop :: "(string \<times> string) list \<Rightarrow> string \<Rightarrow> string" where
  "detect_ats_loop [] url = (if url \<noteq> [] then ''Internal'' else [])"
| "detect_ats_loop ((name, pattern) # items) url =
     (if url \<noteq> [] \<and> py_in pattern url then name else detect_ats_loop items url)"

definition detect_ats :: "string \<Rightarrow> string" where
  "detect_ats url = detect_ats_loop ATS_PATTERNS url"

text \<open>
  \<open>re.search(r"(engineer|...|technician)", title, re.I)\<close>: some position of the title at
  which one of the alternatives matches, letters compared without case. This is the
  matcher on Latin-1 text, where a letter of the pattern matches itself and its capital
  only; the code points beyond Latin-1 that \<open>re.I\<close> also matches are followed in the
  extractor over code points.
\<close>

fun match_here :: "string \<Rightarrow> string \<Rightarrow> bool" where
  "match_here [] s = True"
| "match_here (k # ks) [] = False"
| "match_here (k # ks) (c # cs) = (lower_char c = k \<and> match_here ks cs)"

fun re_search :: "string list \<Rightarrow> string \<Rightarrow> bool" where
  "re_search alts [] = list_ex (\<lambda>alt. match_here alt []) alts"
| "re_search alts (c # cs) = (list_ex (\<lambda>alt. match_here alt (c # cs)) alts \<or> re_search alts cs)"

record job =
  job_url :: string
  job_title :: string
  job_location :: string
  job_date :: string

fun scrape_loop :: "library \<Rightarrow> string \<Rightarrow> anchor list \<Rightarrow> job list \<Rightarrow> error + job list" where
  "scrape_loop lib listings_url [] jobs = Inr jobs"
| "scrape_loop lib listings_url (a # as) jobs =
     (let title = a_text a
      in if title = [] then scrape_loop lib listings_url as jobs
         else if re_search ROLE_KEYWORDS title then
           (let href = a_href a
            in if href = [] then scrape_loop lib listings_url as jobs
               else case (if \<not> startswith href ''http'' then urljoin lib listings_url href
                          else Inr href) of
                      Inl e \<Rightarrow> Inl e
                    | Inr u \<Rightarrow>
                        (let jobs' = jobs @ [\<lparr>job_url = u, job_title = title,
                                              job_location = [], job_date = []\<rparr>]
                         in if length jobs' \<ge> 3 then Inr jobs'
                            else scrape_loop lib listings_url as jobs'))
         else if length jobs \<ge> 3 then Inr jobs
         else scrape_loop lib listings_url as jobs)"

definition scrape_jobs_simple ::
  "library \<Rightarrow> network \<Rightarrow> request list \<Rightarrow> string \<Rightarrow> (error + job list) \<times> request list" where
  "scrape_jobs_simple lib net log listings_url =
     (case safe_get net log listings_url of
        (None, log') \<Rightarrow> (Inr [], log')
      | (Some r, log') \<Rightarrow>
          if \<not> response_ok r then (Inr [], log')
          else (scrape_loop lib listings_url (select_a_href lib (resp_text r)) [], log'))"

section \<open>The pipeline\<close>

definition test_url :: "string \<Rightarrow> string \<Rightarrow> string" where
  \<comment> \<open>\<open>f"https://{name_clean.lower().replace(' ', '')}.{tld}"\<close>\<close>
  "test_url name_clean tld =
     ''https://'' @ replace_space [] (py_lower name_clean) @ ''.'' @ tld"

fun guess_website ::
  "network \<Rightarrow> request list \<Rightarrow> string \<Rightarrow> string list \<Rightarrow> string \<times> request list" where
  \<comment> \<open>the loop over the top-level domains; \<open>website\<close> starts empty\<close>
  "guess_website net log name_clean [] = ([], log)"
| "guess_website net log name_clean (tld # tlds) =
     (case head_ok net log (test_url name_clean tld) of
        (ok, log') \<Rightarrow>
          if ok then (test_url name_clean tld, log')
          else guess_website net log' name_clean tlds)"

type_synonym row = "string \<rightharpoonup> string"

definition job_key :: "nat \<Rightarrow> string \<Rightarrow> string" where
  \<comment> \<open>\<open>f"job post{i+1} URL"\<close> and its three siblings\<close>
  "job_key i field = ''job post'' @ str_nat (i + 1) @ '' '' @ field"

definition fill_slot :: "job list \<Rightarrow> nat \<Rightarrow> row \<Rightarrow> row" where
  \<comment> \<open>the body of \<open>for i in range(3)\<close>\<close>
  "fill_slot jobs i row =
     (if i < length jobs
      then row(job_key i ''URL'' \<mapsto> job_url (jobs ! i),
               job_key i ''title'' \<mapsto> job_title (jobs ! i),
               job_key i ''location'' \<mapsto> job_location (jobs ! i),
               job_key i ''date'' \<mapsto> job_date (jobs ! i))
      else row(job_key i ''URL'' \<mapsto> [],
               job_key i ''title'' \<mapsto> [],
               job_key i ''location'' \<mapsto> [],
               job_key i ''date'' \<mapsto> []))"

definition linkedin_url :: "string \<Rightarrow> string" where
  \<comment> \<open>\<open>f"https://www.linkedin.com/company/{name_clean.lower().replace(' ', '-')}/"\<close>\<close>
  "linkedin_url name_clean =
     ''https://www.linkedin.com/company/'' @ replace_space ''-'' (py_lower name_clean) @ ''/''"

definition py_or :: "string \<Rightarrow> string \<Rightarrow> string" where
  \<comment> \<open>\<open>a or b\<close> on strings: \<open>a\<close> unless it is empty\<close>
  "py_or a b = (if a \<noteq> [] then a else b)"

definition find_careers_page ::
  "library \<Rightarrow> network \<Rightarrow> request list \<Rightarrow> string \<Rightarrow> (error + string) \<times> request list" where
  \<comment> \<open>the block "Find careers page" of \<open>process_company\<close>; \<open>careers\<close> starts empty\<close>
  "find_careers_page lib net log website =
     (if website \<noteq> []
      then (case safe_get net log website of
              (None, log') \<Rightarrow> (Inr [], log')
            | (Some resp, log') \<Rightarrow>
                if response_ok resp
                then (find_careers lib website (resp_text resp), log')
                else (Inr [], log'))
      else (Inr [], log))"

definition build_row ::
  "string \<Rightarrow> string \<Rightarrow> string \<Rightarrow> string \<Rightarrow> string \<Rightarrow> string \<Rightarrow> job list \<Rightarrow> row" where
  \<comment> \<open>the dict literal \<open>row\<close> and the loop that adds the twelve job columns\<close>
  "build_row name_clean website linkedin careers jobs_url provider jobs =
     fold (fill_slot jobs) [0..<3]
       [''Company Name'' \<mapsto> name_clean,
        ''Website URL'' \<mapsto> website,
        ''Linkedin URL'' \<mapsto> linkedin,
        ''Careers Page URL'' \<mapsto> careers,
        ''Job listings page URL'' \<mapsto> jobs_url,
        ''Provider'' \<mapsto> provider]"

definition process_company ::
  "library \<Rightarrow> network \<Rightarrow> request list \<Rightarrow> string \<Rightarrow> (error + row) \<times> request list" where
  "process_company lib net log name =
     (let name_clean = py_strip name;
          linkedin = linkedin_url name_clean
      in case guess_website net log name_clean TLDS of
           (website, log1) \<Rightarrow>
             (case find_careers_page lib net log1 website of
                (Inl e, log2) \<Rightarrow> (Inl e, log2)
              | (Inr careers, log2) \<Rightarrow>
                  (let jobs_url = py_or careers (py_or website []);
                       provider = detect_ats jobs_url
                   in case (if jobs_url \<noteq> []
                            then scrape_jobs_simple lib net log2 jobs_url
                            else (Inr [], log2)) of
                        (Inl e, log3) \<Rightarrow> (Inl e, log3)
                      | (Inr jobs, log3) \<Rightarrow>
                          (Inr (build_row name_clean website linkedin careers jobs_url
                                  provider jobs), log3))))"

section \<open>Notions of the specification\<close>

definition probes :: "string \<Rightarrow> string list \<Rightarrow> nat \<Rightarrow> request list" where
  \<comment> \<open>the probes of the first \<open>i\<close> candidate URLs, in order\<close>
  "probes name_clean tlds i = map (\<lambda>tld. (HEAD, test_url name_clean tld)) (take i tlds)"

definition slot :: "job list \<Rightarrow> nat \<Rightarrow> (job \<Rightarrow> string) \<Rightarrow> string" where
  \<comment> \<open>what a job column of the row holds: the field of job \<open>i\<close>, or the empty padding\<close>
  "slot jobs i field = (if i < length jobs then field (jobs ! i) else [])"

definition mentions_careers :: "anchor \<Rightarrow> bool" where
  \<comment> \<open>the lowercased href or the lowercased visible text contains a careers keyword\<close>
  "mentions_careers a =
     list_ex (\<lambda>kw. sublist kw (py_lower (a_href a)) \<or> sublist kw (py_lower (a_text a)))
       CAREERS_KEYWORDS"

definition is_alpha :: "char \<Rightarrow> bool" where
  "is_alpha c = (let n = (of_char c :: nat) in (65 \<le> n \<and> n \<le> 90) \<or> (97 \<le> n \<and> n \<le> 122))"

definition is_scheme_char :: "char \<Rightarrow> bool" where
  "is_scheme_char c =
     (let n = (of_char c :: nat)
      in is_alpha c \<or> (48 \<le> n \<and> n \<le> 57) \<or> c = CHR ''+'' \<or> c = CHR ''-'' \<or> c = CHR ''.'')"

definition is_absolute_url :: "string \<Rightarrow> bool" where
  \<comment> \<open>an absolute URL begins with a scheme and a colon: a letter, then letters, digits,
      \<open>+\<close>, \<open>-\<close> or \<open>.\<close>, then \<open>:\<close>\<close>
  "is_absolute_url s =
     (case s of
        [] \<Rightarrow> False
      | c # cs \<Rightarrow>
          is_alpha c
          \<and> (case dropWhile is_scheme_char cs of [] \<Rightarrow> False | d # ds \<Rightarrow> d = CHR '':''))"

definition is_job_anchor :: "anchor \<Rightarrow> bool" where
  \<comment> \<open>an anchor the extractor counts: its text matches the pattern and its href is not empty\<close>
  "is_job_anchor a = (re_search ROLE_KEYWORDS (a_text a) \<and> a_href a \<noteq> [])"

definition job_of :: "library \<Rightarrow> string \<Rightarrow> anchor \<Rightarrow> error + job" where
  \<comment> \<open>the posting the extractor appends for a counted anchor, or the error of \<open>urljoin\<close>\<close>
  "job_of lib listings_url a =
     (case (if \<not> startswith (a_href a) ''http'' then urljoin lib listings_url (a_href a)
            else Inr (a_href a)) of
        Inl e \<Rightarrow> Inl e
      | Inr u \<Rightarrow> Inr \<lparr>job_url = u, job_title = a_text a, job_location = [], job_date = []\<rparr>)"

definition fetched_anchors :: "library \<Rightarrow> network \<Rightarrow> request list \<Rightarrow> string \<Rightarrow> anchor list" where
  \<comment> \<open>the anchors of the listings page, none when the fetch is absent\<close>
  "fetched_anchors lib net log url =
     (case fst (safe_get net log url) of
        None \<Rightarrow> []
      | Some r \<Rightarrow> select_a_href lib (resp_text r))"

definition same_answers :: "network \<Rightarrow> network \<Rightarrow> bool" where
  \<comment> \<open>every probe and every fetch of a URL answers the same, in both networks and whatever
      was requested before\<close>
  "same_answers net1 net2 =
     (\<forall>h1 h2 url.
        fst (head_ok net1 h1 url) = fst (head_ok net2 h2 url)
        \<and> fst (safe_get net1 h1 url) = fst (safe_get net2 h2 url))"

section \<open>The extractor over code points\<close>

text \<open>
  The regular expression of \<open>scrape_jobs_simple\<close> is the one test of the program that
  treats code points beyond Latin-1 in a way of its own: under \<open>re.I\<close> the letter i also
  matches U+0130 and U+0131, s also matches U+017F and k also matches U+212A, and no
  other code point matches an ASCII letter of the pattern but the letter and its capital.
  To follow the extractor there it is written out a second time, every \<open>str\<close> being the
  list of its code points. On Latin-1 text the two matchers agree.
\<close>

type_synonym ustring = "nat list"

definition U :: "string \<Rightarrow> ustring" where
  \<comment> \<open>the code points of a Latin-1 string\<close>
  "U s = map of_char s"

definition ignorecase_eq :: "nat \<Rightarrow> nat \<Rightarrow> bool" where
  \<comment> \<open>\<open>re.I\<close> on a character \<open>k\<close> of the pattern, which holds lowercase ASCII letters only,
      and a code point \<open>c\<close> of the text: the letter, its capital, and the code points
      beyond Latin-1 whose case pairs them with i, s and k\<close>
  "ignorecase_eq k c =
     (c = k
      \<or> (97 \<le> k \<and> k \<le> 122 \<and> c + 32 = k)
      \<or> (k = 105 \<and> (c = 304 \<or> c = 305))
      \<or> (k = 115 \<and> c = 383)
      \<or> (k = 107 \<and> c = 8490))"

fun match_here_u :: "ustring \<Rightarrow> ustring \<Rightarrow> bool" where
  "match_here_u [] s = True"
| "match_here_u (k # ks) [] = False"
| "match_here_u (k # ks) (c # cs) = (ignorecase_eq k c \<and> match_here_u ks cs)"

fun re_search_u :: "ustring list \<Rightarrow> ustring \<Rightarrow> bool" where
  "re_search_u alts [] = list_ex (\<lambda>alt. match_here_u alt []) alts"
| "re_search_u alts (c # cs) =
     (list_ex (\<lambda>alt. match_here_u alt (c # cs)) alts \<or> re_search_u alts cs)"
















section \<open>An example site\<close>

text \<open>
  The end-to-end scenario of the specification: \<open>acme.com\<close> answers the probe, its
  homepage links to \<open>/careers\<close>, and the careers page lists one matching job among other
  anchors. Further pages exercise the extractor and the locator, and two of them carry a
  reference whose host opens a bracket it never closes, on which \<open>urljoin\<close> raises.
\<close>

definition acme_home :: string where
  "acme_home = ''<a href=/about>About</a> <a href=/careers>Careers</a> <a href=/jobs>Jobs</a>''"

definition acme_careers :: string where
  "acme_careers =
     ''<a href=/>Home</a> <a href=/jobs/42>Senior Engineer</a> <a href=/team>Team</a>''"

definition acme_about :: string where
  "acme_about = ''<a href=/>Home</a> <a href=/team>Team</a>''"

definition acme_press :: string where
  "acme_press = ''<a href= https://jobs.lever.co/acme >Open roles</a>''"

definition acme_legacy :: string where
  "acme_legacy = ''<a href=https-careers.html>Careers</a>''"

definition acme_board :: string where
  "acme_board = ''<a href=/jobs/1></a> <a href>Data Analyst</a> <a href=/jobs/2>Software ENGINEER</a> <a href=/jobs/3>Product Manager</a> <a href=/blog>Blog</a> <a href=https://jobs.lever.co/acme/4>UX Designer</a> <a href=/jobs/5>Sales Intern</a>''"

definition acme_broken_home :: string where
  "acme_broken_home = ''<a href=//[>Careers</a>''"

definition acme_broken_board :: string where
  "acme_broken_board = ''<a href=//[>Site Engineer</a>''"

definition acme_anchors :: "(string \<times> anchor list) list" where
  \<comment> \<open>what the parser selects on each page of the example\<close>
  "acme_anchors =
     [(acme_home,
         [\<lparr>a_href = ''/about'', a_text = ''About''\<rparr>,
          \<lparr>a_href = ''/careers'', a_text = ''Careers''\<rparr>,
          \<lparr>a_href = ''/jobs'', a_text = ''Jobs''\<rparr>]),
      (acme_careers,
         [\<lparr>a_href = ''/'', a_text = ''Home''\<rparr>,
          \<lparr>a_href = ''/jobs/42'', a_text = ''Senior Engineer''\<rparr>,
          \<lparr>a_href = ''/team'', a_text = ''Team''\<rparr>]),
      (acme_about,
         [\<lparr>a_href = ''/'', a_text = ''Home''\<rparr>,
          \<lparr>a_href = ''/team'', a_text = ''Team''\<rparr>]),
      (acme_press,
         [\<lparr>a_href = '' https://jobs.lever.co/acme '', a_text = ''Open roles''\<rparr>]),
      (acme_legacy,
         [\<lparr>a_href = ''https-careers.html'', a_text = ''Careers''\<rparr>]),
      (acme_board,
         [\<lparr>a_href = ''/jobs/1'', a_text = []\<rparr>,
          \<lparr>a_href = [], a_text = ''Data Analyst''\<rparr>,
          \<lparr>a_href = ''/jobs/2'', a_text = ''Software ENGINEER''\<rparr>,
          \<lparr>a_href = ''/jobs/3'', a_text = ''Product Manager''\<rparr>,
          \<lparr>a_href = ''/blog'', a_text = ''Blog''\<rparr>,
          \<lparr>a_href = ''https://jobs.lever.co/acme/4'', a_text = ''UX Designer''\<rparr>,
          \<lparr>a_href = ''/jobs/5'', a_text = ''Sales Intern''\<rparr>]),
      (acme_broken_home,
         [\<lparr>a_href = ''//['', a_text = ''Careers''\<rparr>]),
      (acme_broken_board,
         [\<lparr>a_href = ''//['', a_text = ''Site Engineer''\<rparr>])]"

definition acme_lib :: library where
  "acme_lib =
     \<lparr>select_a_href = (\<lambda>html.
        case map_of acme_anchors html of None \<Rightarrow> [] | Some as \<Rightarrow> as),
      urljoin = (\<lambda>base href.
        if href = ''//['' then Inl ValueError
        else if startswith href ''/'' then Inr (''https://acme.com'' @ href)
        else Inr (base @ ''/'' @ href))\<rparr>"

definition acme_net :: network where
  "acme_net h q =
     (if q = (HEAD, ''https://acme.com'') then Returns \<lparr>status_code = 200, resp_text = []\<rparr>
      else if q = (GET, ''https://acme.com'')
      then Returns \<lparr>status_code = 200, resp_text = acme_home\<rparr>
      else if q = (GET, ''https://acme.com/careers'')
      then Returns \<lparr>status_code = 200, resp_text = acme_careers\<rparr>
      else if q = (GET, ''https://acme.com/board'')
      then Returns \<lparr>status_code = 200, resp_text = acme_board\<rparr>
      else if q = (GET, ''https://acme.com/broken'')
      then Returns \<lparr>status_code = 200, resp_text = acme_broken_board\<rparr>
      else Raises)"

definition acme_mirror_net :: network where
  \<comment> \<open>the same site behind a server that redirects probes and answers 404 elsewhere\<close>
  "acme_mirror_net h q =
     (if q = (HEAD, ''https://acme.com'') then Returns \<lparr>status_code = 301, resp_text = []\<rparr>
      else if q = (GET, ''https://acme.com'')
      then Returns \<lparr>status_code = 200, resp_text = acme_home\<rparr>
      else if q = (GET, ''https://acme.com/careers'')
      then Returns \<lparr>status_code = 200, resp_text = acme_careers\<rparr>
      else if q = (GET, ''https://acme.com/board'')
      then Returns \<lparr>status_code = 200, resp_text = acme_board\<rparr>
      else if q = (GET, ''https://acme.com/broken'')
      then Returns \<lparr>status_code = 200, resp_text = acme_broken_board\<rparr>
      else Returns \<lparr>status_code = 404, resp_text = []\<rparr>)"

definition acme_broken_net :: network where
  "acme_broken_net h q =
     (if q = (HEAD, ''https://acme.com'') then Returns \<lparr>status_code = 200, resp_text = []\<rparr>
      else if q = (GET, ''https://acme.com'')
      then Returns \<lparr>status_code = 200, resp_text = acme_broken_home\<rparr>
      else Raises)"

definition acme_io_net :: network where
  \<comment> \<open>only the \<open>io\<close> and \<open>net\<close> domains of the name answer a probe\<close>
  "acme_io_net h q =
     (if q = (HEAD, ''https://acme.io'') \<or> q = (HEAD, ''https://acme.net'')
      then Returns \<lparr>status_code = 200, resp_text = []\<rparr>
      else Raises)"

definition dead_net :: network where
  \<comment> \<open>no name resolves: every request raises\<close>
  "dead_net h q = Raises"





section \<open>Strings and patterns\<close>

lemma py_in_sublist: "py_in p s = sublist p s"
  by (induction s) (auto simp: sublist_Cons_right)

lemma of_char_lt_256: "(of_char c :: nat) < 256"
  by (rule nat_of_char_less_256)

lemma is_space_lower_char: "is_space (lower_char c) = is_space c"
proof -
  have "(of_char c :: nat) < 256" by (rule of_char_lt_256)
  then show ?thesis
    by (auto simp: is_space_def lower_char_def Let_def)
qed

lemma py_lower_strip: "py_lower (py_strip s) = py_strip (py_lower s)"
proof -
  have comp: "is_space \<circ> lower_char = is_space"
    by (rule ext) (simp add: is_space_lower_char)
  have dw: "map lower_char (dropWhile is_space xs) = dropWhile is_space (map lower_char xs)" for xs
    by (simp add: dropWhile_map comp)
  have "map lower_char (rev (dropWhile is_space (rev (dropWhile is_space s))))
        = rev (dropWhile is_space (rev (dropWhile is_space (map lower_char s))))"
    by (simp only: rev_map [symmetric] dw)
  then show ?thesis
    by (simp only: py_lower_def py_strip_def)
qed

lemma sublist_dropWhile:
  assumes "kw \<noteq> []" and "\<forall>c \<in> set kw. \<not> P c"
  shows "sublist kw (dropWhile P s) = sublist kw s"
proof (induction s)
  case Nil
  then show ?case by simp
next
  case (Cons c cs)
  show ?case
  proof (cases "P c")
    case True
    have "\<not> prefix kw (c # cs)"
    proof
      assume "prefix kw (c # cs)"
      then have "hd kw = c" using assms(1) by (cases kw) auto
      then show False using assms True by (cases kw) auto
    qed
    then show ?thesis using True Cons by (simp add: sublist_Cons_right)
  next
    case False
    then show ?thesis by simp
  qed
qed

lemma sublist_strip:
  assumes "kw \<noteq> []" and "\<forall>c \<in> set kw. \<not> is_space c"
  shows "sublist kw (py_strip s) = sublist kw s"
proof -
  have r: "rev kw \<noteq> []" "\<forall>c \<in> set (rev kw). \<not> is_space c"
    using assms by auto
  have "sublist kw (py_strip s) = sublist (rev kw) (dropWhile is_space (rev (dropWhile is_space s)))"
    by (simp add: py_strip_def sublist_rev_left)
  also have "\<dots> = sublist (rev kw) (rev (dropWhile is_space s))"
    by (rule sublist_dropWhile [OF r])
  also have "\<dots> = sublist kw (dropWhile is_space s)"
    by (simp add: sublist_rev_left)
  also have "\<dots> = sublist kw s"
    by (rule sublist_dropWhile [OF assms])
  finally show ?thesis .
qed

lemma careers_keywords_solid:
  "kw \<in> set CAREERS_KEYWORDS \<Longrightarrow> kw \<noteq> [] \<and> (\<forall>c \<in> set kw. \<not> is_space c)"
proof -
  have "\<forall>kw \<in> set CAREERS_KEYWORDS. kw \<noteq> [] \<and> (\<forall>c \<in> set kw. \<not> is_space c)"
    by code_simp
  then show "kw \<in> set CAREERS_KEYWORDS \<Longrightarrow> kw \<noteq> [] \<and> (\<forall>c \<in> set kw. \<not> is_space c)"
    by blast
qed

lemma no_role_keyword_in_empty: "\<not> re_search ROLE_KEYWORDS []"
  by code_simp

lemma careers_test_mentions:
  "list_ex (\<lambda>kw. py_in kw (py_lower (py_strip (a_href a))) \<or> py_in kw (py_lower (a_text a)))
     CAREERS_KEYWORDS = mentions_careers a"
proof -
  have "sublist kw (py_lower (py_strip (a_href a))) = sublist kw (py_lower (a_href a))"
    if "kw \<in> set CAREERS_KEYWORDS" for kw
    using careers_keywords_solid [OF that] by (simp add: py_lower_strip sublist_strip)
  then show ?thesis
    by (auto simp: mentions_careers_def list_ex_iff py_in_sublist)
qed

section \<open>The fetcher\<close>

lemma head_ok_log: "snd (head_ok net log url) = log @ [(HEAD, url)]"
  by (cases "net log (HEAD, url)") (simp_all add: head_ok_def)

lemma safe_get_log: "snd (safe_get net log url) = log @ [(GET, url)]"
  by (cases "net log (GET, url)") (simp_all add: safe_get_def)

lemma safe_get_ok: "safe_get net log url = (Some r, log') \<Longrightarrow> response_ok r"
  by (cases "net log (GET, url)") (auto simp: safe_get_def response_ok_def split: if_splits)

text \<open>
  C6. Neither helper has a failing result: \<open>safe_get\<close> returns the response exactly when
  the GET returns one with a status below 400, and nothing when the GET raises or the
  status is 400 or more; \<open>head_ok\<close> is true exactly when the HEAD returns a status below
  400, and false when it raises; each makes one request and no second attempt.
\<close>

theorem fetcher_single_attempt:
  "snd (safe_get net log url) = log @ [(GET, url)]
   \<and> snd (head_ok net log url) = log @ [(HEAD, url)]
   \<and> (fst (safe_get net log url) = Some r
        \<longleftrightarrow> net log (GET, url) = Returns r \<and> status_code r < 400)
   \<and> (fst (safe_get net log url) = None
        \<longleftrightarrow> net log (GET, url) = Raises
            \<or> (\<exists>r'. net log (GET, url) = Returns r' \<and> status_code r' \<ge> 400))
   \<and> (fst (head_ok net log url)
        \<longleftrightarrow> (\<exists>r'. net log (HEAD, url) = Returns r' \<and> status_code r' < 400))
   \<and> (net log (HEAD, url) = Raises \<longrightarrow> \<not> fst (head_ok net log url))"
  by (cases "net log (GET, url)"; cases "net log (HEAD, url)")
     (auto simp: safe_get_def head_ok_def)

theorem fetcher_single_attempt_witness:
  "dead_net [] (HEAD, ''https://acme.com'') = Raises
   \<and> \<not> fst (head_ok dead_net [] ''https://acme.com'')
   \<and> snd (head_ok dead_net [] ''https://acme.com'') = [(HEAD, ''https://acme.com'')]
   \<and> acme_mirror_net [] (GET, ''https://acme.com/press'')
        = Returns \<lparr>status_code = 404, resp_text = []\<rparr>
   \<and> fst (safe_get acme_mirror_net [] ''https://acme.com/press'') = None
   \<and> fst (safe_get acme_net [] ''https://acme.com'')
        = Some \<lparr>status_code = 200, resp_text = acme_home\<rparr>"
proof -
  have raises: "dead_net [] (HEAD, ''https://acme.com'') = Raises"
    by (simp add: dead_net_def)
  have missing: "acme_mirror_net [] (GET, ''https://acme.com/press'')
                   = Returns \<lparr>status_code = 404, resp_text = []\<rparr>"
    by (simp add: acme_mirror_net_def)
  have found: "acme_net [] (GET, ''https://acme.com'')
                 = Returns \<lparr>status_code = 200, resp_text = acme_home\<rparr>"
    by (simp add: acme_net_def)
  from fetcher_single_attempt [of dead_net "[]" "''https://acme.com''"] raises
  have a: "\<not> fst (head_ok dead_net [] ''https://acme.com'')"
    and b: "snd (head_ok dead_net [] ''https://acme.com'') = [(HEAD, ''https://acme.com'')]"
    by simp_all
  from fetcher_single_attempt [of acme_mirror_net "[]" "''https://acme.com/press''"] missing
  have c: "fst (safe_get acme_mirror_net [] ''https://acme.com/press'') = None"
    by simp
  from fetcher_single_attempt
         [of acme_net "[]" "''https://acme.com''" "\<lparr>status_code = 200, resp_text = acme_home\<rparr>"]
       found
  have d: "fst (safe_get acme_net [] ''https://acme.com'')
             = Some \<lparr>status_code = 200, resp_text = acme_home\<rparr>"
    by simp
  from raises a b missing c d show ?thesis by simp
qed

section \<open>The classifier\<close>

lemma detect_ats_loop_find:
  "url \<noteq> [] \<Longrightarrow>
   detect_ats_loop items url =
     (case find (\<lambda>item. py_in (snd item) url) items of
        None \<Rightarrow> ''Internal'' | Some item \<Rightarrow> fst item)"
  by (induction items) auto

lemma detect_ats_loop_empty: "detect_ats_loop items [] = []"
  by (induction items) auto

text \<open>
  C2. \<open>detect_ats\<close> depends on the URL alone. The empty URL gives the empty label; a
  non-empty URL that contains a signature gives the name of the first signature of the
  mapping it contains, the mapping being in the order Personio, Teamtailor, Zoho Recruit,
  Lever, Greenhouse; a non-empty URL that contains none gives \<open>Internal\<close>. The two
  URLs of the specification give \<open>Lever\<close> and \<open>Internal\<close>.
\<close>

theorem detect_ats_first_match:
  "detect_ats [] = []
   \<and> (url \<noteq> [] \<longrightarrow>
        (\<forall>i < length ATS_PATTERNS.
           sublist (snd (ATS_PATTERNS ! i)) url \<longrightarrow>
           (\<forall>j < i. \<not> sublist (snd (ATS_PATTERNS ! j)) url) \<longrightarrow>
           detect_ats url = fst (ATS_PATTERNS ! i)))
   \<and> (url \<noteq> [] \<longrightarrow> (\<forall>item \<in> set ATS_PATTERNS. \<not> sublist (snd item) url) \<longrightarrow>
        detect_ats url = ''Internal'')
   \<and> map fst ATS_PATTERNS = [''Personio'', ''Teamtailor'', ''Zoho Recruit'', ''Lever'', ''Greenhouse'']
   \<and> detect_ats ''https://jobs.lever.co/acme'' = ''Lever''
   \<and> detect_ats ''https://acme.com/careers'' = ''Internal''"
proof (intro conjI impI allI ballI)
  show "detect_ats [] = []"
    by (simp add: detect_ats_def detect_ats_loop_empty)
next
  fix i
  assume url: "url \<noteq> []" and i: "i < length ATS_PATTERNS"
    and hit: "sublist (snd (ATS_PATTERNS ! i)) url"
    and first: "\<forall>j<i. \<not> sublist (snd (ATS_PATTERNS ! j)) url"
  have "find (\<lambda>item. py_in (snd item) url) ATS_PATTERNS = Some (ATS_PATTERNS ! i)"
    unfolding find_Some_iff using i hit first by (auto simp: py_in_sublist)
  then show "detect_ats url = fst (ATS_PATTERNS ! i)"
    using url by (simp add: detect_ats_def detect_ats_loop_find)
next
  assume url: "url \<noteq> []" and none: "\<forall>item\<in>set ATS_PATTERNS. \<not> sublist (snd item) url"
  have "find (\<lambda>item. py_in (snd item) url) ATS_PATTERNS = None"
    unfolding find_None_iff using none by (auto simp: py_in_sublist)
  then show "detect_ats url = ''Internal''"
    using url by (simp add: detect_ats_def detect_ats_loop_find)
next
  show "map fst ATS_PATTERNS = [''Personio'', ''Teamtailor'', ''Zoho Recruit'', ''Lever'', ''Greenhouse'']"
    by (simp add: ATS_PATTERNS_def)
next
  show "detect_ats ''https://jobs.lever.co/acme'' = ''Lever''"
    by code_simp
next
  show "detect_ats ''https://acme.com/careers'' = ''Internal''"
    by code_simp
qed

theorem detect_ats_first_match_witness:
  "''https://boards.greenhouse.io/acme'' \<noteq> []
   \<and> (4::nat) < length ATS_PATTERNS
   \<and> sublist (snd (ATS_PATTERNS ! 4)) ''https://boards.greenhouse.io/acme''
   \<and> list_all (\<lambda>j. \<not> sublist (snd (ATS_PATTERNS ! j)) ''https://boards.greenhouse.io/acme'')
        [0, 1, 2, 3]
   \<and> detect_ats ''https://boards.greenhouse.io/acme'' = ''Greenhouse''
   \<and> list_all (\<lambda>item. \<not> sublist (snd item) ''https://acme.org'') ATS_PATTERNS
   \<and> detect_ats ''https://acme.org'' = ''Internal''"
proof -
  have len: "(4::nat) < length ATS_PATTERNS"
    by (simp add: ATS_PATTERNS_def)
  have hit: "sublist (snd (ATS_PATTERNS ! 4)) ''https://boards.greenhouse.io/acme''"
    by code_simp
  have earlier: "list_all (\<lambda>j. \<not> sublist (snd (ATS_PATTERNS ! j)) ''https://boards.greenhouse.io/acme'')
                   [0, 1, 2, 3]"
    by code_simp
  have first: "\<forall>j < 4. \<not> sublist (snd (ATS_PATTERNS ! j)) ''https://boards.greenhouse.io/acme''"
  proof (intro allI impI)
    fix j :: nat
    assume "j < 4"
    then have "j \<in> set [0, 1, 2, 3]" by auto
    with earlier show "\<not> sublist (snd (ATS_PATTERNS ! j)) ''https://boards.greenhouse.io/acme''"
      unfolding list_all_iff by blast
  qed
  have none: "list_all (\<lambda>item. \<not> sublist (snd item) ''https://acme.org'') ATS_PATTERNS"
    by code_simp
  have name: "fst (ATS_PATTERNS ! 4) = ''Greenhouse''"
    by (simp add: ATS_PATTERNS_def)
  from detect_ats_first_match [of "''https://boards.greenhouse.io/acme''"] len hit first name
  have a: "detect_ats ''https://boards.greenhouse.io/acme'' = ''Greenhouse''"
    by simp
  from detect_ats_first_match [of "''https://acme.org''"] none
  have b: "detect_ats ''https://acme.org'' = ''Internal''"
    by (simp add: list_all_iff)
  from len hit earlier none a b show ?thesis by simp
qed

section \<open>The careers-link locator\<close>

lemma find_careers_loop_find:
  "find_careers_loop lib base_url as =
     (case find mentions_careers as of
        None \<Rightarrow> Inr []
      | Some a \<Rightarrow>
          if startswith (py_strip (a_href a)) ''http'' then Inr (py_strip (a_href a))
          else urljoin lib base_url (py_strip (a_href a)))"
  by (induction as) (simp_all add: Let_def careers_test_mentions)

text \<open>
  C4. \<open>find_careers\<close> returns, for the first anchor in document order whose lowercased
  href or lowercased text contains career, careers, jobs or join, that anchor's href with
  its surrounding whitespace removed: unchanged when it starts with \<open>http\<close> (the test the
  code makes for an absolute URL), and otherwise what \<open>urljoin\<close> gives for it against the
  base URL. An earlier matching anchor wins over a later one; with no matching anchor
  the result is the empty string.
\<close>

theorem find_careers_first_anchor:
  "(\<forall>i < length (select_a_href lib html).
      mentions_careers (select_a_href lib html ! i) \<longrightarrow>
      (\<forall>j<i. \<not> mentions_careers (select_a_href lib html ! j)) \<longrightarrow>
      find_careers lib base_url html =
        (if startswith (py_strip (a_href (select_a_href lib html ! i))) ''http''
         then Inr (py_strip (a_href (select_a_href lib html ! i)))
         else urljoin lib base_url (py_strip (a_href (select_a_href lib html ! i)))))
   \<and> ((\<forall>a \<in> set (select_a_href lib html). \<not> mentions_careers a) \<longrightarrow>
        find_careers lib base_url html = Inr [])"
proof (intro conjI allI impI)
  fix i
  assume i: "i < length (select_a_href lib html)"
    and hit: "mentions_careers (select_a_href lib html ! i)"
    and first: "\<forall>j<i. \<not> mentions_careers (select_a_href lib html ! j)"
  have "find mentions_careers (select_a_href lib html) = Some (select_a_href lib html ! i)"
    unfolding find_Some_iff using i hit first by blast
  then show "find_careers lib base_url html =
        (if startswith (py_strip (a_href (select_a_href lib html ! i))) ''http''
         then Inr (py_strip (a_href (select_a_href lib html ! i)))
         else urljoin lib base_url (py_strip (a_href (select_a_href lib html ! i))))"
    by (simp add: find_careers_def find_careers_loop_find)
next
  assume "\<forall>a \<in> set (select_a_href lib html). \<not> mentions_careers a"
  then have "find mentions_careers (select_a_href lib html) = None"
    unfolding find_None_iff by blast
  then show "find_careers lib base_url html = Inr []"
    by (simp add: find_careers_def find_careers_loop_find)
qed

theorem find_careers_first_anchor_witness:
  "\<not> mentions_careers (select_a_href acme_lib acme_home ! 0)
   \<and> mentions_careers (select_a_href acme_lib acme_home ! 1)
   \<and> mentions_careers (select_a_href acme_lib acme_home ! 2)
   \<and> find_careers acme_lib ''https://acme.com'' acme_home = Inr ''https://acme.com/careers''
   \<and> mentions_careers (select_a_href acme_lib acme_press ! 0)
   \<and> find_careers acme_lib ''https://acme.com'' acme_press = Inr ''https://jobs.lever.co/acme''
   \<and> list_all (\<lambda>a. \<not> mentions_careers a) (select_a_href acme_lib acme_about)
   \<and> find_careers acme_lib ''https://acme.com'' acme_about = Inr []"
proof -
  have h0: "\<not> mentions_careers (select_a_href acme_lib acme_home ! 0)"
    and h1: "mentions_careers (select_a_href acme_lib acme_home ! 1)"
    and h2: "mentions_careers (select_a_href acme_lib acme_home ! 2)"
    and hl: "1 < length (select_a_href acme_lib acme_home)"
    and p0: "mentions_careers (select_a_href acme_lib acme_press ! 0)"
    and pl: "0 < length (select_a_href acme_lib acme_press)"
    and ab: "list_all (\<lambda>a. \<not> mentions_careers a) (select_a_href acme_lib acme_about)"
    by code_simp+
  have first: "\<not> mentions_careers (select_a_href acme_lib acme_home ! j)" if "j < 1" for j
    using that h0 by simp
  note t = find_careers_first_anchor [where lib = acme_lib and base_url = "''https://acme.com''"]
  have "find_careers acme_lib ''https://acme.com'' acme_home =
        (if startswith (py_strip (a_href (select_a_href acme_lib acme_home ! 1))) ''http''
         then Inr (py_strip (a_href (select_a_href acme_lib acme_home ! 1)))
         else urljoin acme_lib ''https://acme.com''
                (py_strip (a_href (select_a_href acme_lib acme_home ! 1))))"
    by (rule t [where html = acme_home, THEN conjunct1, rule_format, OF hl h1 first])
  also have "\<dots> = Inr ''https://acme.com/careers''"
    by code_simp
  finally have a: "find_careers acme_lib ''https://acme.com'' acme_home
                     = Inr ''https://acme.com/careers''" .
  have none: "\<not> mentions_careers (select_a_href acme_lib acme_press ! j)" if "j < 0" for j
    using that by simp
  have "find_careers acme_lib ''https://acme.com'' acme_press =
        (if startswith (py_strip (a_href (select_a_href acme_lib acme_press ! 0))) ''http''
         then Inr (py_strip (a_href (select_a_href acme_lib acme_press ! 0)))
         else urljoin acme_lib ''https://acme.com''
                (py_strip (a_href (select_a_href acme_lib acme_press ! 0))))"
    by (rule t [where html = acme_press, THEN conjunct1, rule_format, OF pl p0 none])
  also have "\<dots> = Inr ''https://jobs.lever.co/acme''"
    by code_simp
  finally have b: "find_careers acme_lib ''https://acme.com'' acme_press
                     = Inr ''https://jobs.lever.co/acme''" .
  have "\<forall>a \<in> set (select_a_href acme_lib acme_about). \<not> mentions_careers a"
    using ab by (simp only: list_all_iff)
  from t [where html = acme_about, THEN conjunct2, THEN mp, OF this]
  have c: "find_careers acme_lib ''https://acme.com'' acme_about = Inr []" .
  from h0 h1 h2 a p0 b ab c show ?thesis by (intro conjI)
qed

text \<open>
  The href \<open>https-careers.html\<close> is a relative reference, not an absolute URL, but it
  starts with \<open>http\<close>: the locator returns it as it is, where joining it against the
  base URL gives \<open>https://acme.com/https-careers.html\<close>.
\<close>

theorem find_careers_relative_href_counterexample:
  "select_a_href acme_lib acme_legacy = [\<lparr>a_href = ''https-careers.html'', a_text = ''Careers''\<rparr>]
   \<and> mentions_careers \<lparr>a_href = ''https-careers.html'', a_text = ''Careers''\<rparr>
   \<and> \<not> is_absolute_url ''https-careers.html''
   \<and> is_absolute_url ''https://acme.com/https-careers.html''
   \<and> urljoin acme_lib ''https://acme.com'' ''https-careers.html''
       = Inr ''https://acme.com/https-careers.html''
   \<and> find_careers acme_lib ''https://acme.com'' acme_legacy = Inr ''https-careers.html''"
proof (intro conjI)
  show "select_a_href acme_lib acme_legacy
          = [\<lparr>a_href = ''https-careers.html'', a_text = ''Careers''\<rparr>]"
    by code_simp
  show "mentions_careers \<lparr>a_href = ''https-careers.html'', a_text = ''Careers''\<rparr>"
    by code_simp
  show "\<not> is_absolute_url ''https-careers.html''"
    by code_simp
  show "is_absolute_url ''https://acme.com/https-careers.html''"
    by code_simp
  show "urljoin acme_lib ''https://acme.com'' ''https-careers.html''
          = Inr ''https://acme.com/https-careers.html''"
    by code_simp
  show "find_careers acme_lib ''https://acme.com'' acme_legacy = Inr ''https-careers.html''"
    by code_simp
qed

section \<open>The job extractor\<close>

lemma not_job_anchor_empty_text: "a_text a = [] \<Longrightarrow> \<not> is_job_anchor a"
  using no_role_keyword_in_empty by (simp add: is_job_anchor_def del: re_search.simps)

lemma scrape_loop_Cons:
  assumes "length jobs < 3"
  shows "scrape_loop lib url (a # as) jobs =
     (if is_job_anchor a
      then (case job_of lib url a of
              Inl e \<Rightarrow> Inl e
            | Inr j \<Rightarrow> if length jobs = 2 then Inr (jobs @ [j])
                       else scrape_loop lib url as (jobs @ [j]))
      else scrape_loop lib url as jobs)"
proof (cases "a_text a = []")
  case True
  then show ?thesis by (simp add: not_job_anchor_empty_text)
next
  case False
  have two: "(2 \<le> length jobs) = (length jobs = 2)"
    using assms by auto
  show ?thesis
    using False assms
    by (simp add: Let_def is_job_anchor_def job_of_def two split: sum.splits)
qed

lemma scrape_loop_Inr:
  assumes "length jobs < 3" and "scrape_loop lib url as jobs = Inr js"
  shows "\<exists>new. js = jobs @ new
           \<and> map Inr new = map (job_of lib url) (take (3 - length jobs) (filter is_job_anchor as))"
  using assms
proof (induction as arbitrary: jobs)
  case Nil
  then show ?case by simp
next
  case (Cons a as)
  show ?case
  proof (cases "is_job_anchor a")
    case False
    with Cons show ?thesis by (simp add: scrape_loop_Cons del: scrape_loop.simps)
  next
    case True
    from Cons.prems True obtain j where j: "job_of lib url a = Inr j"
      by (cases "job_of lib url a") (simp_all add: scrape_loop_Cons del: scrape_loop.simps)
    have tk: "take (3 - length jobs) (filter is_job_anchor (a # as))
                = a # take (3 - length (jobs @ [j])) (filter is_job_anchor as)"
      using True Cons.prems(1) by (simp add: take_Cons')
    show ?thesis
    proof (cases "length jobs = 2")
      case two: True
      with Cons.prems True j have "js = jobs @ [j]"
        by (simp add: scrape_loop_Cons del: scrape_loop.simps)
      with two j tk show ?thesis by simp
    next
      case less: False
      with Cons.prems(1) have short: "length (jobs @ [j]) < 3" by simp
      from Cons.prems True j less have "scrape_loop lib url as (jobs @ [j]) = Inr js"
        by (simp add: scrape_loop_Cons del: scrape_loop.simps)
      from Cons.IH [OF short this] obtain new where
        new: "js = (jobs @ [j]) @ new"
          "map Inr new = map (job_of lib url) (take (3 - length (jobs @ [j])) (filter is_job_anchor as))"
        by blast
      have "js = jobs @ (j # new)" using new(1) by simp
      moreover have "map Inr (j # new)
                       = map (job_of lib url) (take (3 - length jobs) (filter is_job_anchor (a # as)))"
        using new(2) j tk by simp
      ultimately show ?thesis by blast
    qed
  qed
qed

lemma scrape_loop_Inl:
  assumes "length jobs < 3" and "scrape_loop lib url as jobs = Inl e"
  shows "\<exists>a \<in> set (take (3 - length jobs) (filter is_job_anchor as)). job_of lib url a = Inl e"
  using assms
proof (induction as arbitrary: jobs)
  case Nil
  then show ?case by simp
next
  case (Cons a as)
  show ?case
  proof (cases "is_job_anchor a")
    case False
    with Cons show ?thesis by (simp add: scrape_loop_Cons del: scrape_loop.simps)
  next
    case True
    show ?thesis
    proof (cases "job_of lib url a")
      case (Inl e')
      with Cons.prems True have "e' = e" by (simp add: scrape_loop_Cons del: scrape_loop.simps)
      with Inl True Cons.prems(1) show ?thesis by (simp add: take_Cons')
    next
      case (Inr j)
      have tk: "take (3 - length jobs) (filter is_job_anchor (a # as))
                  = a # take (3 - length (jobs @ [j])) (filter is_job_anchor as)"
        using True Cons.prems(1) by (simp add: take_Cons')
      from Cons.prems True Inr have less: "length jobs \<noteq> 2"
        and rest: "scrape_loop lib url as (jobs @ [j]) = Inl e"
        by (auto simp: scrape_loop_Cons simp del: scrape_loop.simps split: if_splits)
      from less Cons.prems(1) have short: "length (jobs @ [j]) < 3" by simp
      from Cons.IH [OF short rest] tk show ?thesis by auto
    qed
  qed
qed

lemma scrape_jobs_simple_loop:
  "fst (scrape_jobs_simple lib net log url)
     = scrape_loop lib url (fetched_anchors lib net log url) []"
proof (cases "safe_get net log url")
  case (Pair r log')
  show ?thesis
  proof (cases r)
    case None
    with Pair show ?thesis by (simp add: scrape_jobs_simple_def fetched_anchors_def)
  next
    case (Some resp)
    with Pair have "response_ok resp" by (auto dest: safe_get_ok)
    with Pair Some show ?thesis by (simp add: scrape_jobs_simple_def fetched_anchors_def)
  qed
qed

lemma scrape_jobs_simple_log: "snd (scrape_jobs_simple lib net log url) = log @ [(GET, url)]"
  using safe_get_log [of net log url]
  by (cases "safe_get net log url")
     (auto simp: scrape_jobs_simple_def split: option.splits)

lemma scrape_jobs_simple_Inr:
  assumes "fst (scrape_jobs_simple lib net log url) = Inr jobs"
  shows "map Inr jobs
           = map (job_of lib url) (take 3 (filter is_job_anchor (fetched_anchors lib net log url)))"
proof -
  from assms have "scrape_loop lib url (fetched_anchors lib net log url) [] = Inr jobs"
    by (simp add: scrape_jobs_simple_loop)
  from scrape_loop_Inr [OF _ this] show ?thesis by simp
qed

lemma length_of_map_Inr:
  assumes "map g jobs = map f (take 3 xs)"
  shows "length jobs \<le> 3"
proof -
  have "length jobs = length (map g jobs)" by simp
  also have "\<dots> = length (map f (take 3 xs))" using assms by simp
  also have "\<dots> \<le> 3" by simp
  finally show ?thesis .
qed

text \<open>
  C5. What \<open>scrape_jobs_simple\<close> returns has at most 3 entries, and they are the postings
  of the first (at most) 3 anchors of the fetched page, in document order, whose text
  matches the role pattern and whose href is not empty. An anchor with empty text never
  matches, and an anchor with empty text or empty href leaves the loop as it found it:
  it is not counted. When \<open>urljoin\<close> raises on one of those first anchors the error is
  the result.
\<close>

theorem scrape_jobs_first_three:
  "(fst (scrape_jobs_simple lib net log url) = Inr jobs \<longrightarrow>
      length jobs \<le> 3
      \<and> map Inr jobs
          = map (job_of lib url)
              (take 3 (filter is_job_anchor (fetched_anchors lib net log url))))
   \<and> (fst (scrape_jobs_simple lib net log url) = Inl e \<longrightarrow>
        (\<exists>a \<in> set (take 3 (filter is_job_anchor (fetched_anchors lib net log url))).
           job_of lib url a = Inl e))
   \<and> (is_job_anchor a \<longleftrightarrow> re_search ROLE_KEYWORDS (a_text a) \<and> a_href a \<noteq> [])
   \<and> (a_text a = [] \<longrightarrow> \<not> re_search ROLE_KEYWORDS (a_text a))
   \<and> (a_text a = [] \<or> a_href a = [] \<longrightarrow> length acc < 3 \<longrightarrow>
        scrape_loop lib url (a # as) acc = scrape_loop lib url as acc)"
proof (intro conjI impI)
  assume r: "fst (scrape_jobs_simple lib net log url) = Inr jobs"
  show "map Inr jobs
          = map (job_of lib url) (take 3 (filter is_job_anchor (fetched_anchors lib net log url)))"
    by (rule scrape_jobs_simple_Inr [OF r])
  then show "length jobs \<le> 3"
    by (rule length_of_map_Inr)
next
  assume "fst (scrape_jobs_simple lib net log url) = Inl e"
  then have "scrape_loop lib url (fetched_anchors lib net log url) [] = Inl e"
    by (simp add: scrape_jobs_simple_loop)
  from scrape_loop_Inl [OF _ this]
  show "\<exists>a \<in> set (take 3 (filter is_job_anchor (fetched_anchors lib net log url))).
          job_of lib url a = Inl e"
    by simp
next
  show "is_job_anchor a \<longleftrightarrow> re_search ROLE_KEYWORDS (a_text a) \<and> a_href a \<noteq> []"
    by (simp add: is_job_anchor_def)
next
  assume "a_text a = []"
  then show "\<not> re_search ROLE_KEYWORDS (a_text a)"
    using no_role_keyword_in_empty by (simp del: re_search.simps)
next
  assume "a_text a = [] \<or> a_href a = []" and "length acc < 3"
  then show "scrape_loop lib url (a # as) acc = scrape_loop lib url as acc"
    using no_role_keyword_in_empty
    by (auto simp: scrape_loop_Cons is_job_anchor_def simp del: scrape_loop.simps re_search.simps)
qed

lemma board_jobs:
  "fst (scrape_jobs_simple acme_lib acme_net [] ''https://acme.com/board'')
     = Inr [\<lparr>job_url = ''https://acme.com/jobs/2'', job_title = ''Software ENGINEER'',
              job_location = [], job_date = []\<rparr>,
            \<lparr>job_url = ''https://acme.com/jobs/3'', job_title = ''Product Manager'',
              job_location = [], job_date = []\<rparr>,
            \<lparr>job_url = ''https://jobs.lever.co/acme/4'', job_title = ''UX Designer'',
              job_location = [], job_date = []\<rparr>]"
  by code_simp

lemma broken_board_raises:
  "fst (scrape_jobs_simple acme_lib acme_net [] ''https://acme.com/broken'') = Inl ValueError"
  by code_simp

theorem scrape_jobs_first_three_witness:
  "fst (scrape_jobs_simple acme_lib acme_net [] ''https://acme.com/board'')
     = Inr [\<lparr>job_url = ''https://acme.com/jobs/2'', job_title = ''Software ENGINEER'',
              job_location = [], job_date = []\<rparr>,
            \<lparr>job_url = ''https://acme.com/jobs/3'', job_title = ''Product Manager'',
              job_location = [], job_date = []\<rparr>,
            \<lparr>job_url = ''https://jobs.lever.co/acme/4'', job_title = ''UX Designer'',
              job_location = [], job_date = []\<rparr>]
   \<and> map Inr [\<lparr>job_url = ''https://acme.com/jobs/2'', job_title = ''Software ENGINEER'',
                 job_location = [], job_date = []\<rparr>,
               \<lparr>job_url = ''https://acme.com/jobs/3'', job_title = ''Product Manager'',
                 job_location = [], job_date = []\<rparr>,
               \<lparr>job_url = ''https://jobs.lever.co/acme/4'', job_title = ''UX Designer'',
                 job_location = [], job_date = []\<rparr>]
       = map (job_of acme_lib ''https://acme.com/board'')
           (take 3 (filter is_job_anchor
              (fetched_anchors acme_lib acme_net [] ''https://acme.com/board'')))
   \<and> length (filter is_job_anchor
         (fetched_anchors acme_lib acme_net [] ''https://acme.com/board'')) = 4
   \<and> fst (scrape_jobs_simple acme_lib acme_net [] ''https://acme.com/broken'') = Inl ValueError
   \<and> (\<exists>a \<in> set (take 3 (filter is_job_anchor
          (fetched_anchors acme_lib acme_net [] ''https://acme.com/broken''))).
         job_of acme_lib ''https://acme.com/broken'' a = Inl ValueError)
   \<and> scrape_loop acme_lib ''https://acme.com/board''
        [\<lparr>a_href = ''/jobs/1'', a_text = []\<rparr>, \<lparr>a_href = [], a_text = ''Data Analyst''\<rparr>] []
       = scrape_loop acme_lib ''https://acme.com/board''
        [\<lparr>a_href = [], a_text = ''Data Analyst''\<rparr>] []"
proof -
  note board = scrape_jobs_first_three
    [where lib = acme_lib and net = acme_net and log = "[]" and url = "''https://acme.com/board''"]
  from board [THEN conjunct1, THEN mp, OF board_jobs]
  have a: "map Inr [\<lparr>job_url = ''https://acme.com/jobs/2'', job_title = ''Software ENGINEER'',
                 job_location = [], job_date = []\<rparr>,
               \<lparr>job_url = ''https://acme.com/jobs/3'', job_title = ''Product Manager'',
                 job_location = [], job_date = []\<rparr>,
               \<lparr>job_url = ''https://jobs.lever.co/acme/4'', job_title = ''UX Designer'',
                 job_location = [], job_date = []\<rparr>]
       = map (job_of acme_lib ''https://acme.com/board'')
           (take 3 (filter is_job_anchor
              (fetched_anchors acme_lib acme_net [] ''https://acme.com/board'')))"
    by (rule conjunct2)
  have four: "length (filter is_job_anchor
         (fetched_anchors acme_lib acme_net [] ''https://acme.com/board'')) = 4"
    by code_simp
  note broken = scrape_jobs_first_three
    [where lib = acme_lib and net = acme_net and log = "[]" and url = "''https://acme.com/broken''"]
  from broken [THEN conjunct2, THEN conjunct1, THEN mp, OF broken_board_raises]
  have b: "\<exists>a \<in> set (take 3 (filter is_job_anchor
          (fetched_anchors acme_lib acme_net [] ''https://acme.com/broken''))).
         job_of acme_lib ''https://acme.com/broken'' a = Inl ValueError" .
  have empty: "a_text \<lparr>a_href = ''/jobs/1'', a_text = []\<rparr> = []
               \<or> a_href \<lparr>a_href = ''/jobs/1'', a_text = []\<rparr> = []"
    by simp
  have short: "length ([] :: job list) < 3" by simp
  from board [where a = "\<lparr>a_href = ''/jobs/1'', a_text = []\<rparr>" and acc = "[]"
                and as = "[\<lparr>a_href = [], a_text = ''Data Analyst''\<rparr>]",
              THEN conjunct2, THEN conjunct2, THEN conjunct2, THEN conjunct2,
              THEN mp, THEN mp, OF empty short]
  have c: "scrape_loop acme_lib ''https://acme.com/board''
        [\<lparr>a_href = ''/jobs/1'', a_text = []\<rparr>, \<lparr>a_href = [], a_text = ''Data Analyst''\<rparr>] []
       = scrape_loop acme_lib ''https://acme.com/board''
        [\<lparr>a_href = [], a_text = ''Data Analyst''\<rparr>] []" .
  from board_jobs a four broken_board_raises b c show ?thesis by (intro conjI)
qed

subsection \<open>Over code points\<close>

lemma ignorecase_eq_latin1:
  assumes "97 \<le> (of_char k :: nat)" and "(of_char k :: nat) \<le> 122"
  shows "ignorecase_eq (of_char k) (of_char c) = (lower_char c = k)"
proof -
  have c: "(of_char c :: nat) < 256" by (rule nat_of_char_less_256)
  then have wide: "(of_char c :: nat) \<noteq> 304" "(of_char c :: nat) \<noteq> 305"
    "(of_char c :: nat) \<noteq> 383" "(of_char c :: nat) \<noteq> 8490"
    by linarith+
  have eq: "(lower_char c = k) = ((of_char (lower_char c) :: nat) = of_char k)"
    by simp
  show ?thesis
    unfolding eq using assms wide
    by (auto simp: ignorecase_eq_def lower_char_def Let_def)
qed

lemma U_Nil: "U [] = []"
  by (simp add: U_def)

lemma U_Cons: "U (c # cs) = of_char c # U cs"
  by (simp add: U_def)

lemma match_here_latin1:
  assumes "\<forall>k \<in> set alt. 97 \<le> (of_char k :: nat) \<and> (of_char k :: nat) \<le> 122"
  shows "match_here_u (U alt) (U s) = match_here alt s"
  using assms
proof (induction alt s rule: match_here.induct)
  case (1 s)
  show ?case by (simp add: U_Nil)
next
  case (2 k ks)
  show ?case by (simp add: U_Nil U_Cons)
next
  case (3 k ks c cs)
  then have "match_here_u (U ks) (U cs) = match_here ks cs" by simp
  moreover have "ignorecase_eq (of_char k) (of_char c) = (lower_char c = k)"
    using 3(2) by (intro ignorecase_eq_latin1) simp_all
  ultimately show ?case by (simp add: U_Cons)
qed

lemma list_ex_match_latin1:
  assumes "\<forall>alt \<in> set alts. \<forall>k \<in> set alt. 97 \<le> (of_char k :: nat) \<and> (of_char k :: nat) \<le> 122"
  shows "list_ex (\<lambda>alt. match_here_u alt (U s)) (map U alts)
           = list_ex (\<lambda>alt. match_here alt s) alts"
  using assms match_here_latin1 [where s = s]
  by (auto simp: list_ex_iff)

lemma re_search_latin1:
  assumes "\<forall>alt \<in> set alts. \<forall>k \<in> set alt. 97 \<le> (of_char k :: nat) \<and> (of_char k :: nat) \<le> 122"
  shows "re_search_u (map U alts) (U s) = re_search alts s"
proof (induction s)
  case Nil
  from list_ex_match_latin1 [OF assms, of "[]"] show ?case
    by (simp only: U_Nil re_search_u.simps re_search.simps)
next
  case (Cons c cs)
  from list_ex_match_latin1 [OF assms, of "c # cs"] Cons show ?case
    by (simp only: U_Cons re_search_u.simps re_search.simps)
qed

lemma role_keywords_lowercase:
  "\<forall>alt \<in> set ROLE_KEYWORDS. \<forall>k \<in> set alt. 97 \<le> (of_char k :: nat) \<and> (of_char k :: nat) \<le> 122"
  by code_simp

lemma role_pattern_latin1:
  "re_search_u (map U ROLE_KEYWORDS) (U title) = re_search ROLE_KEYWORDS title"
  by (rule re_search_latin1 [OF role_keywords_lowercase])



lemma no_role_keyword_u_in_empty: "\<not> re_search_u (map U ROLE_KEYWORDS) []"
  by code_simp








section \<open>The row\<close>

lemma digit_chars:
  "char_of (49::nat) = CHR ''1''" "char_of (50::nat) = CHR ''2''" "char_of (51::nat) = CHR ''3''"
  by code_simp+

lemma str_nat_digits:
  "str_nat (Suc 0) = ''1''" "str_nat (Suc (Suc 0)) = ''2''" "str_nat 3 = ''3''"
proof -
  have "str_nat 1 = ''1''" "str_nat 2 = ''2''" "str_nat 3 = ''3''"
    using digit_chars by (simp_all add: str_nat.simps)
  then show "str_nat (Suc 0) = ''1''" "str_nat (Suc (Suc 0)) = ''2''" "str_nat 3 = ''3''"
    by (simp_all add: numeral_2_eq_2)
qed

lemma job_key_simps:
  "job_key 0 field = ''job post1 '' @ field"
  "job_key (Suc 0) field = ''job post2 '' @ field"
  "job_key 2 field = ''job post3 '' @ field"
  by (simp_all add: job_key_def str_nat_digits)

lemma build_row_eq:
  "build_row name_clean website linkedin careers jobs_url provider jobs =
     [''Company Name'' \<mapsto> name_clean,
      ''Website URL'' \<mapsto> website,
      ''Linkedin URL'' \<mapsto> linkedin,
      ''Careers Page URL'' \<mapsto> careers,
      ''Job listings page URL'' \<mapsto> jobs_url,
      ''Provider'' \<mapsto> provider,
      ''job post1 URL'' \<mapsto> slot jobs 0 job_url,
      ''job post1 title'' \<mapsto> slot jobs 0 job_title,
      ''job post1 location'' \<mapsto> slot jobs 0 job_location,
      ''job post1 date'' \<mapsto> slot jobs 0 job_date,
      ''job post2 URL'' \<mapsto> slot jobs 1 job_url,
      ''job post2 title'' \<mapsto> slot jobs 1 job_title,
      ''job post2 location'' \<mapsto> slot jobs 1 job_location,
      ''job post2 date'' \<mapsto> slot jobs 1 job_date,
      ''job post3 URL'' \<mapsto> slot jobs 2 job_url,
      ''job post3 title'' \<mapsto> slot jobs 2 job_title,
      ''job post3 location'' \<mapsto> slot jobs 2 job_location,
      ''job post3 date'' \<mapsto> slot jobs 2 job_date]"
proof -
  have range3: "[0..<3] = [0, Suc 0, 2]" by (simp add: upt_rec)
  have s0: "fill_slot jobs 0 r =
      r(''job post1 URL'' \<mapsto> slot jobs 0 job_url, ''job post1 title'' \<mapsto> slot jobs 0 job_title,
        ''job post1 location'' \<mapsto> slot jobs 0 job_location,
        ''job post1 date'' \<mapsto> slot jobs 0 job_date)" for r
    by (simp add: fill_slot_def job_key_simps slot_def)
  have s1: "fill_slot jobs (Suc 0) r =
      r(''job post2 URL'' \<mapsto> slot jobs 1 job_url, ''job post2 title'' \<mapsto> slot jobs 1 job_title,
        ''job post2 location'' \<mapsto> slot jobs 1 job_location,
        ''job post2 date'' \<mapsto> slot jobs 1 job_date)" for r
    by (simp add: fill_slot_def job_key_simps slot_def)
  have s2: "fill_slot jobs 2 r =
      r(''job post3 URL'' \<mapsto> slot jobs 2 job_url, ''job post3 title'' \<mapsto> slot jobs 2 job_title,
        ''job post3 location'' \<mapsto> slot jobs 2 job_location,
        ''job post3 date'' \<mapsto> slot jobs 2 job_date)" for r
    by (simp add: fill_slot_def job_key_simps slot_def)
  show ?thesis
    unfolding build_row_def range3 by (simp only: fold_simps s0 s1 s2 o_apply id_apply)
qed

lemmas row_lookup =
  fun_upd_apply list.inject list.distinct char.inject simp_thms if_False if_True

lemma build_row_fields:
  "build_row n w l c ju p jobs ''Company Name'' = Some n"
  "build_row n w l c ju p jobs ''Website URL'' = Some w"
  "build_row n w l c ju p jobs ''Linkedin URL'' = Some l"
  "build_row n w l c ju p jobs ''Careers Page URL'' = Some c"
  "build_row n w l c ju p jobs ''Job listings page URL'' = Some ju"
  "build_row n w l c ju p jobs ''Provider'' = Some p"
  unfolding build_row_eq by (simp_all only: row_lookup)

lemma build_row_post1_url:
  "build_row n w l c ju p jobs ''job post1 URL'' = Some (slot jobs 0 job_url)"
  unfolding build_row_eq by (simp only: row_lookup)

lemma build_row_post1_title:
  "build_row n w l c ju p jobs ''job post1 title'' = Some (slot jobs 0 job_title)"
  unfolding build_row_eq by (simp only: row_lookup)

lemma build_row_post1_location:
  "build_row n w l c ju p jobs ''job post1 location'' = Some (slot jobs 0 job_location)"
  unfolding build_row_eq by (simp only: row_lookup)

lemma build_row_post1_date:
  "build_row n w l c ju p jobs ''job post1 date'' = Some (slot jobs 0 job_date)"
  unfolding build_row_eq by (simp only: row_lookup)

lemma build_row_post2_url:
  "build_row n w l c ju p jobs ''job post2 URL'' = Some (slot jobs 1 job_url)"
  unfolding build_row_eq by (simp only: row_lookup)

lemma build_row_post2_title:
  "build_row n w l c ju p jobs ''job post2 title'' = Some (slot jobs 1 job_title)"
  unfolding build_row_eq by (simp only: row_lookup)

lemma build_row_post2_location:
  "build_row n w l c ju p jobs ''job post2 location'' = Some (slot jobs 1 job_location)"
  unfolding build_row_eq by (simp only: row_lookup)

lemma build_row_post2_date:
  "build_row n w l c ju p jobs ''job post2 date'' = Some (slot jobs 1 job_date)"
  unfolding build_row_eq by (simp only: row_lookup)

lemma build_row_post3_url:
  "build_row n w l c ju p jobs ''job post3 URL'' = Some (slot jobs 2 job_url)"
  unfolding build_row_eq by (simp only: row_lookup)

lemma build_row_post3_title:
  "build_row n w l c ju p jobs ''job post3 title'' = Some (slot jobs 2 job_title)"
  unfolding build_row_eq by (simp only: row_lookup)

lemma build_row_post3_location:
  "build_row n w l c ju p jobs ''job post3 location'' = Some (slot jobs 2 job_location)"
  unfolding build_row_eq by (simp only: row_lookup)

lemma build_row_post3_date:
  "build_row n w l c ju p jobs ''job post3 date'' = Some (slot jobs 2 job_date)"
  unfolding build_row_eq by (simp only: row_lookup)

lemmas build_row_slots =
  build_row_post1_url build_row_post1_title build_row_post1_location build_row_post1_date
  build_row_post2_url build_row_post2_title build_row_post2_location build_row_post2_date
  build_row_post3_url build_row_post3_title build_row_post3_location build_row_post3_date

lemma dom_build_row: "dom (build_row n w l c ju p jobs) = set COLUMNS"
proof -
  have "dom (build_row n w l c ju p jobs) = set (rev COLUMNS)"
    unfolding build_row_eq COLUMNS_def
    by (simp only: dom_fun_upd option.distinct if_False dom_empty rev.simps append.simps list.set)
  then show ?thesis by (simp only: set_rev)
qed

lemma process_company_Inr:
  assumes "process_company lib net log name = (Inr row, log')"
  obtains website log1 careers log2 jobs where
    "guess_website net log (py_strip name) TLDS = (website, log1)"
    "find_careers_page lib net log1 website = (Inr careers, log2)"
    "(if py_or careers (py_or website []) \<noteq> []
      then scrape_jobs_simple lib net log2 (py_or careers (py_or website []))
      else (Inr [], log2)) = (Inr jobs, log')"
    "row = build_row (py_strip name) website (linkedin_url (py_strip name)) careers
             (py_or careers (py_or website [])) (detect_ats (py_or careers (py_or website [])))
             jobs"
  using assms
  by (simp add: process_company_def Let_def split: prod.splits sum.splits)

section \<open>The domain guess\<close>

lemma probes_0: "probes nm tlds 0 = []"
  by (simp add: probes_def)

lemma probes_Suc: "probes nm (tld # tlds) (Suc i) = (HEAD, test_url nm tld) # probes nm tlds i"
  by (simp add: probes_def)

lemma guess_website_first:
  assumes "i < length tlds"
    and "\<forall>j<i. \<not> fst (head_ok net (log @ probes nm tlds j) (test_url nm (tlds ! j)))"
    and "fst (head_ok net (log @ probes nm tlds i) (test_url nm (tlds ! i)))"
  shows "guess_website net log nm tlds = (test_url nm (tlds ! i), log @ probes nm tlds (Suc i))"
  using assms
proof (induction tlds arbitrary: log i)
  case Nil
  then show ?case by simp
next
  case (Cons tld tlds)
  obtain ok log' where h: "head_ok net log (test_url nm tld) = (ok, log')"
    by (cases "head_ok net log (test_url nm tld)")
  have log': "log' = log @ [(HEAD, test_url nm tld)]"
    using head_ok_log [of net log "test_url nm tld"] h by simp
  show ?case
  proof (cases i)
    case 0
    with Cons.prems(3) h have ok by (simp add: probes_0)
    with h log' 0 show ?thesis by (simp add: probes_Suc probes_0)
  next
    case (Suc k)
    from Cons.prems(2) Suc h have "\<not> ok"
      by (auto simp: probes_0 dest: spec [of _ 0])
    have k: "k < length tlds" using Cons.prems(1) Suc by simp
    have earlier: "\<forall>j<k. \<not> fst (head_ok net (log' @ probes nm tlds j) (test_url nm (tlds ! j)))"
    proof (intro allI impI)
      fix j assume "j < k"
      then have "Suc j < i" using Suc by simp
      with Cons.prems(2) show "\<not> fst (head_ok net (log' @ probes nm tlds j) (test_url nm (tlds ! j)))"
        by (auto simp: probes_Suc log' dest: spec [of _ "Suc j"])
    qed
    have hit: "fst (head_ok net (log' @ probes nm tlds k) (test_url nm (tlds ! k)))"
      using Cons.prems(3) Suc by (simp add: probes_Suc log')
    from Cons.IH [OF k earlier hit] \<open>\<not> ok\<close> h Suc show ?thesis
      by (simp add: probes_Suc log')
  qed
qed

lemma guess_website_none:
  assumes "\<forall>j<length tlds. \<not> fst (head_ok net (log @ probes nm tlds j) (test_url nm (tlds ! j)))"
  shows "guess_website net log nm tlds = ([], log @ probes nm tlds (length tlds))"
  using assms
proof (induction tlds arbitrary: log)
  case Nil
  then show ?case by (simp add: probes_0)
next
  case (Cons tld tlds)
  obtain ok log' where h: "head_ok net log (test_url nm tld) = (ok, log')"
    by (cases "head_ok net log (test_url nm tld)")
  have log': "log' = log @ [(HEAD, test_url nm tld)]"
    using head_ok_log [of net log "test_url nm tld"] h by simp
  from Cons.prems h have "\<not> ok"
    by (auto simp: probes_0 dest: spec [of _ 0])
  have rest: "\<forall>j<length tlds. \<not> fst (head_ok net (log' @ probes nm tlds j) (test_url nm (tlds ! j)))"
  proof (intro allI impI)
    fix j assume "j < length tlds"
    then have "Suc j < length (tld # tlds)" by simp
    with Cons.prems show "\<not> fst (head_ok net (log' @ probes nm tlds j) (test_url nm (tlds ! j)))"
      by (auto simp: probes_Suc log' dest: spec [of _ "Suc j"])
  qed
  from Cons.IH [OF rest] \<open>\<not> ok\<close> h show ?case
    by (simp add: probes_Suc log')
qed

lemma replace_space_filter: "replace_space [] s = filter (\<lambda>c. c \<noteq> CHR '' '') s"
  by (induction s) (simp_all add: replace_space_def)

lemma process_company_website:
  assumes "process_company lib net log name = (Inr row, log')"
  shows "row ''Website URL'' = Some (fst (guess_website net log (py_strip name) TLDS))"
  using assms by (elim process_company_Inr) (simp add: build_row_fields)

lemma acme_strip: "py_strip '' Acme '' = ''Acme''"
  by code_simp

lemma acme_candidates:
  "map (test_url ''Acme'') TLDS =
     [''https://acme.com'', ''https://acme.org'', ''https://acme.io'', ''https://acme.ai'',
      ''https://acme.net'', ''https://acme.co'']"
  by code_simp

lemma acme_guess:
  "guess_website acme_net [] ''Acme'' TLDS = (''https://acme.com'', [(HEAD, ''https://acme.com'')])"
  by code_simp

lemma acme_careers_page:
  "find_careers_page acme_lib acme_net [(HEAD, ''https://acme.com'')] ''https://acme.com''
     = (Inr ''https://acme.com/careers'',
        [(HEAD, ''https://acme.com''), (GET, ''https://acme.com'')])"
  by code_simp

lemma acme_jobs:
  "scrape_jobs_simple acme_lib acme_net
     [(HEAD, ''https://acme.com''), (GET, ''https://acme.com'')] ''https://acme.com/careers''
     = (Inr [\<lparr>job_url = ''https://acme.com/jobs/42'', job_title = ''Senior Engineer'',
               job_location = [], job_date = []\<rparr>],
        [(HEAD, ''https://acme.com''), (GET, ''https://acme.com''),
         (GET, ''https://acme.com/careers'')])"
  by code_simp

lemma acme_provider: "detect_ats ''https://acme.com/careers'' = ''Internal''"
  by code_simp

lemma acme_linkedin: "linkedin_url ''Acme'' = ''https://www.linkedin.com/company/acme/''"
  by code_simp

lemma acme_process:
  "process_company acme_lib acme_net [] '' Acme '' =
     (Inr (build_row ''Acme'' ''https://acme.com'' ''https://www.linkedin.com/company/acme/''
             ''https://acme.com/careers'' ''https://acme.com/careers'' ''Internal''
             [\<lparr>job_url = ''https://acme.com/jobs/42'', job_title = ''Senior Engineer'',
               job_location = [], job_date = []\<rparr>]),
      [(HEAD, ''https://acme.com''), (GET, ''https://acme.com''),
       (GET, ''https://acme.com/careers'')])"
  by (simp add: process_company_def Let_def acme_strip acme_guess acme_careers_page acme_jobs
        acme_provider acme_linkedin py_or_def)

text \<open>
  C3. The domain guess tries the candidates \<open>https://{name}.{tld}\<close>, the name lowercased
  and its spaces removed, for the top-level domains com, org, io, ai, net, co in that
  order, one probe each. The first candidate whose probe succeeds is the website and no
  later candidate is probed; when the \<open>com\<close> candidate answers it is returned whatever
  \<open>io\<close> would answer; when no candidate answers the website is empty. The website column
  of a returned row is that guess for the trimmed name.
\<close>

theorem guess_website_first_success:
  "TLDS = [''com'', ''org'', ''io'', ''ai'', ''net'', ''co'']
   \<and> test_url nm tld = ''https://'' @ filter (\<lambda>c. c \<noteq> CHR '' '') (py_lower nm) @ ''.'' @ tld
   \<and> (\<forall>i < length TLDS.
         (\<forall>j<i. \<not> fst (head_ok net (log @ probes nm TLDS j) (test_url nm (TLDS ! j)))) \<longrightarrow>
         fst (head_ok net (log @ probes nm TLDS i) (test_url nm (TLDS ! i))) \<longrightarrow>
         guess_website net log nm TLDS = (test_url nm (TLDS ! i), log @ probes nm TLDS (Suc i)))
   \<and> ((\<forall>j < length TLDS.
          \<not> fst (head_ok net (log @ probes nm TLDS j) (test_url nm (TLDS ! j)))) \<longrightarrow>
        guess_website net log nm TLDS = ([], log @ probes nm TLDS (length TLDS)))
   \<and> (fst (head_ok net log (test_url nm ''com'')) \<longrightarrow>
        guess_website net log nm TLDS
          = (test_url nm ''com'', log @ [(HEAD, test_url nm ''com'')]))
   \<and> (process_company lib net log name = (Inr row, log') \<longrightarrow>
        row ''Website URL'' = Some (fst (guess_website net log (py_strip name) TLDS)))"
proof (intro conjI allI impI)
  show "TLDS = [''com'', ''org'', ''io'', ''ai'', ''net'', ''co'']"
    by (simp add: TLDS_def)
next
  show "test_url nm tld = ''https://'' @ filter (\<lambda>c. c \<noteq> CHR '' '') (py_lower nm) @ ''.'' @ tld"
    by (simp add: test_url_def replace_space_filter)
next
  fix i
  assume "i < length TLDS"
    and "\<forall>j<i. \<not> fst (head_ok net (log @ probes nm TLDS j) (test_url nm (TLDS ! j)))"
    and "fst (head_ok net (log @ probes nm TLDS i) (test_url nm (TLDS ! i)))"
  then show "guess_website net log nm TLDS = (test_url nm (TLDS ! i), log @ probes nm TLDS (Suc i))"
    by (rule guess_website_first)
next
  assume "\<forall>j<length TLDS. \<not> fst (head_ok net (log @ probes nm TLDS j) (test_url nm (TLDS ! j)))"
  then show "guess_website net log nm TLDS = ([], log @ probes nm TLDS (length TLDS))"
    by (rule guess_website_none)
next
  assume com: "fst (head_ok net log (test_url nm ''com''))"
  have "guess_website net log nm TLDS = (test_url nm (TLDS ! 0), log @ probes nm TLDS (Suc 0))"
  proof (rule guess_website_first)
    show "0 < length TLDS" by (simp add: TLDS_def)
    show "\<forall>j<0. \<not> fst (head_ok net (log @ probes nm TLDS j) (test_url nm (TLDS ! j)))" by simp
    show "fst (head_ok net (log @ probes nm TLDS 0) (test_url nm (TLDS ! 0)))"
      using com by (simp add: probes_0 TLDS_def)
  qed
  then show "guess_website net log nm TLDS
               = (test_url nm ''com'', log @ [(HEAD, test_url nm ''com'')])"
    by (simp add: TLDS_def probes_def)
next
  assume "process_company lib net log name = (Inr row, log')"
  then show "row ''Website URL'' = Some (fst (guess_website net log (py_strip name) TLDS))"
    by (rule process_company_website)
qed

theorem guess_website_first_success_witness:
  "list_all (\<lambda>j. \<not> fst (head_ok acme_io_net ([] @ probes ''Acme'' TLDS j)
                           (test_url ''Acme'' (TLDS ! j)))) [0, 1]
   \<and> fst (head_ok acme_io_net ([] @ probes ''Acme'' TLDS 2) (test_url ''Acme'' (TLDS ! 2)))
   \<and> guess_website acme_io_net [] ''Acme'' TLDS
       = (''https://acme.io'',
          [(HEAD, ''https://acme.com''), (HEAD, ''https://acme.org''), (HEAD, ''https://acme.io'')])
   \<and> guess_website dead_net [] ''Acme'' TLDS
       = ([], [(HEAD, ''https://acme.com''), (HEAD, ''https://acme.org''),
               (HEAD, ''https://acme.io''), (HEAD, ''https://acme.ai''),
               (HEAD, ''https://acme.net''), (HEAD, ''https://acme.co'')])
   \<and> fst (head_ok acme_net [] (test_url ''Acme'' ''com''))
   \<and> guess_website acme_net [] ''Acme'' TLDS
       = (''https://acme.com'', [(HEAD, ''https://acme.com'')])
   \<and> (\<exists>row log'. process_company acme_lib acme_net [] '' Acme '' = (Inr row, log')
         \<and> row ''Website URL'' = Some ''https://acme.com'')"
proof -
  have io: "fst (head_ok acme_io_net h u) = (u = ''https://acme.io'' \<or> u = ''https://acme.net'')"
    for h u
    by (auto simp: head_ok_def acme_io_net_def)
  have t0: "test_url ''Acme'' (TLDS ! 0) = ''https://acme.com''"
    and t1: "test_url ''Acme'' (TLDS ! Suc 0) = ''https://acme.org''"
    and t2: "test_url ''Acme'' (TLDS ! 2) = ''https://acme.io''"
    and tc: "test_url ''Acme'' ''com'' = ''https://acme.com''"
    by code_simp+
  have p3: "probes ''Acme'' TLDS (Suc 2)
              = [(HEAD, ''https://acme.com''), (HEAD, ''https://acme.org''),
                 (HEAD, ''https://acme.io'')]"
    by code_simp
  have p6: "probes ''Acme'' TLDS (length TLDS)
              = [(HEAD, ''https://acme.com''), (HEAD, ''https://acme.org''),
                 (HEAD, ''https://acme.io''), (HEAD, ''https://acme.ai''),
                 (HEAD, ''https://acme.net''), (HEAD, ''https://acme.co'')]"
    by code_simp
  have len: "2 < length TLDS" by (simp add: TLDS_def)
  have early: "\<not> fst (head_ok acme_io_net ([] @ probes ''Acme'' TLDS j)
                        (test_url ''Acme'' (TLDS ! j)))" if "j < 2" for j
  proof -
    from that have "j = 0 \<or> j = Suc 0" by (rule less_2_cases)
    then show ?thesis using t0 t1 by (auto simp: io)
  qed
  have hit: "fst (head_ok acme_io_net ([] @ probes ''Acme'' TLDS 2) (test_url ''Acme'' (TLDS ! 2)))"
    by (simp add: io t2)
  note io_thm = guess_website_first_success [where nm = "''Acme''" and net = acme_io_net and log = "[]"]
  from io_thm [THEN conjunct2, THEN conjunct2, THEN conjunct1, rule_format, OF len early hit]
  have a: "guess_website acme_io_net [] ''Acme'' TLDS
             = (''https://acme.io'',
                [(HEAD, ''https://acme.com''), (HEAD, ''https://acme.org''),
                 (HEAD, ''https://acme.io'')])"
    by (simp only: t2 p3 append_Nil)
  have dead: "\<forall>j < length TLDS. \<not> fst (head_ok dead_net ([] @ probes ''Acme'' TLDS j)
                                          (test_url ''Acme'' (TLDS ! j)))"
    by (simp add: head_ok_def dead_net_def)
  note dead_thm = guess_website_first_success [where nm = "''Acme''" and net = dead_net and log = "[]"]
  from dead_thm [THEN conjunct2, THEN conjunct2, THEN conjunct2, THEN conjunct1, rule_format, OF dead [rule_format]]
  have b: "guess_website dead_net [] ''Acme'' TLDS
             = ([], [(HEAD, ''https://acme.com''), (HEAD, ''https://acme.org''),
                     (HEAD, ''https://acme.io''), (HEAD, ''https://acme.ai''),
                     (HEAD, ''https://acme.net''), (HEAD, ''https://acme.co'')])"
    by (simp only: p6 append_Nil)
  have com: "fst (head_ok acme_net [] (test_url ''Acme'' ''com''))"
    by (simp add: tc head_ok_def acme_net_def)
  note com_thm = guess_website_first_success [where nm = "''Acme''" and net = acme_net and log = "[]"]
  from com_thm [THEN conjunct2, THEN conjunct2, THEN conjunct2, THEN conjunct2, THEN conjunct1,
                rule_format, OF com]
  have c: "guess_website acme_net [] ''Acme'' TLDS
             = (''https://acme.com'', [(HEAD, ''https://acme.com'')])"
    by (simp only: tc append_Nil)
  note run_thm = guess_website_first_success
    [where lib = acme_lib and net = acme_net and log = "[]" and name = "'' Acme ''"]
  from run_thm [THEN conjunct2, THEN conjunct2, THEN conjunct2, THEN conjunct2, THEN conjunct2,
                rule_format, OF acme_process]
  have "build_row ''Acme'' ''https://acme.com'' ''https://www.linkedin.com/company/acme/''
          ''https://acme.com/careers'' ''https://acme.com/careers'' ''Internal''
          [\<lparr>job_url = ''https://acme.com/jobs/42'', job_title = ''Senior Engineer'',
            job_location = [], job_date = []\<rparr>] ''Website URL'' = Some ''https://acme.com''"
    by (simp add: acme_strip c)
  with acme_process have d: "\<exists>row log'. process_company acme_lib acme_net [] '' Acme '' = (Inr row, log')
         \<and> row ''Website URL'' = Some ''https://acme.com''"
    by blast
  have e: "list_all (\<lambda>j. \<not> fst (head_ok acme_io_net ([] @ probes ''Acme'' TLDS j)
                           (test_url ''Acme'' (TLDS ! j)))) [0, 1]"
    using early [of 0] early [of 1] by simp
  from e hit a b com c d show ?thesis by (intro conjI)
qed

section \<open>Properties of the pipeline\<close>

lemma process_company_no_website:
  assumes "guess_website net log (py_strip name) TLDS = ([], log1)"
  shows "process_company lib net log name =
           (Inr (build_row (py_strip name) [] (linkedin_url (py_strip name)) [] [] [] []), log1)"
  using assms
  by (simp add: process_company_def Let_def find_careers_page_def py_or_def detect_ats_def
        detect_ats_loop_empty)

lemma slot_Nil: "slot [] i field = []"
  by (simp add: slot_def)

lemma process_company_fields:
  assumes "process_company lib net log name = (Inr row, log')"
  shows "\<exists>website careers.
           row ''Company Name'' = Some (py_strip name)
           \<and> row ''Website URL'' = Some website
           \<and> row ''Linkedin URL'' = Some (linkedin_url (py_strip name))
           \<and> row ''Careers Page URL'' = Some careers
           \<and> row ''Job listings page URL'' = Some (py_or careers (py_or website []))
           \<and> row ''Provider'' = Some (detect_ats (py_or careers (py_or website [])))"
  using assms by (elim process_company_Inr) (simp add: build_row_fields)

lemma dead_blank_guess:
  "guess_website dead_net [] (py_strip ''   '') TLDS =
     ([], [(HEAD, ''https://.com''), (HEAD, ''https://.org''), (HEAD, ''https://.io''),
           (HEAD, ''https://.ai''), (HEAD, ''https://.net''), (HEAD, ''https://.co'')])"
  by code_simp

lemma blank_strip: "py_strip ''   '' = []"
  by code_simp

lemma blank_linkedin: "linkedin_url [] = ''https://www.linkedin.com/company//''"
  by code_simp

text \<open>
  C7. In a row \<open>process_company\<close> returns, the job listings URL is the careers URL when
  that is not empty, else the website URL when that is not empty, else empty. When no
  candidate domain answers its probe, \<open>process_company\<close> returns a row whose website,
  careers page, job listings URL and provider are empty and whose twelve job columns
  are empty.
\<close>

theorem jobs_listing_url_fallback:
  "(process_company lib net log name = (Inr row, log') \<longrightarrow>
      (\<exists>website careers.
         row ''Website URL'' = Some website
         \<and> row ''Careers Page URL'' = Some careers
         \<and> row ''Job listings page URL''
             = Some (if careers \<noteq> [] then careers else if website \<noteq> [] then website else [])))
   \<and> ((\<forall>j < length TLDS.
          \<not> fst (head_ok net (log @ probes (py_strip name) TLDS j)
                   (test_url (py_strip name) (TLDS ! j)))) \<longrightarrow>
        (\<exists>row0. process_company lib net log name
                   = (Inr row0, log @ probes (py_strip name) TLDS (length TLDS))
           \<and> row0 ''Website URL'' = Some []
           \<and> row0 ''Careers Page URL'' = Some []
           \<and> row0 ''Job listings page URL'' = Some []
           \<and> row0 ''Provider'' = Some []
           \<and> list_all (\<lambda>k. row0 k = Some []) (drop 6 COLUMNS)))"
proof (intro conjI impI)
  assume "process_company lib net log name = (Inr row, log')"
  from process_company_fields [OF this] obtain website careers where
    "row ''Website URL'' = Some website" "row ''Careers Page URL'' = Some careers"
    "row ''Job listings page URL'' = Some (py_or careers (py_or website []))"
    by blast
  then show "\<exists>website careers.
         row ''Website URL'' = Some website
         \<and> row ''Careers Page URL'' = Some careers
         \<and> row ''Job listings page URL''
             = Some (if careers \<noteq> [] then careers else if website \<noteq> [] then website else [])"
    by (auto simp: py_or_def)
next
  let ?nm = "py_strip name"
  let ?row = "build_row ?nm [] (linkedin_url ?nm) [] [] [] []"
  assume "\<forall>j < length TLDS.
            \<not> fst (head_ok net (log @ probes ?nm TLDS j) (test_url ?nm (TLDS ! j)))"
  then have "guess_website net log ?nm TLDS = ([], log @ probes ?nm TLDS (length TLDS))"
    by (rule guess_website_none)
  then have run: "process_company lib net log name
                    = (Inr ?row, log @ probes ?nm TLDS (length TLDS))"
    by (rule process_company_no_website)
  have slots: "list_all (\<lambda>k. ?row k = Some []) (drop 6 COLUMNS)"
    by (simp add: COLUMNS_def build_row_slots slot_Nil)
  from run slots show "\<exists>row0. process_company lib net log name
                   = (Inr row0, log @ probes ?nm TLDS (length TLDS))
           \<and> row0 ''Website URL'' = Some []
           \<and> row0 ''Careers Page URL'' = Some []
           \<and> row0 ''Job listings page URL'' = Some []
           \<and> row0 ''Provider'' = Some []
           \<and> list_all (\<lambda>k. row0 k = Some []) (drop 6 COLUMNS)"
    by (intro exI [of _ ?row]) (simp add: build_row_fields)
qed

theorem jobs_listing_url_fallback_witness:
  "(\<exists>row log'. process_company acme_lib acme_net [] '' Acme '' = (Inr row, log')
      \<and> row ''Website URL'' = Some ''https://acme.com''
      \<and> row ''Careers Page URL'' = Some ''https://acme.com/careers''
      \<and> row ''Job listings page URL'' = Some ''https://acme.com/careers'')
   \<and> list_all (\<lambda>j. \<not> fst (head_ok dead_net ([] @ probes (py_strip '' Acme '') TLDS j)
                             (test_url (py_strip '' Acme '') (TLDS ! j)))) [0, 1, 2, 3, 4, 5]
   \<and> (\<exists>row0. process_company acme_lib dead_net [] '' Acme ''
                = (Inr row0, [] @ probes (py_strip '' Acme '') TLDS (length TLDS))
         \<and> row0 ''Website URL'' = Some []
         \<and> row0 ''Careers Page URL'' = Some []
         \<and> row0 ''Job listings page URL'' = Some []
         \<and> row0 ''Provider'' = Some []
         \<and> list_all (\<lambda>k. row0 k = Some []) (drop 6 COLUMNS))"
proof -
  let ?row = "build_row ''Acme'' ''https://acme.com'' ''https://www.linkedin.com/company/acme/''
                ''https://acme.com/careers'' ''https://acme.com/careers'' ''Internal''
                [\<lparr>job_url = ''https://acme.com/jobs/42'', job_title = ''Senior Engineer'',
                  job_location = [], job_date = []\<rparr>]"
  note live = jobs_listing_url_fallback
    [where lib = acme_lib and net = acme_net and log = "[]" and name = "'' Acme ''",
     THEN conjunct1, THEN mp, OF acme_process]
  then obtain website careers where
    w: "?row ''Website URL'' = Some website" and c: "?row ''Careers Page URL'' = Some careers"
    and j: "?row ''Job listings page URL''
              = Some (if careers \<noteq> [] then careers else if website \<noteq> [] then website else [])"
    by blast
  from w have w': "website = ''https://acme.com''" by (simp add: build_row_fields)
  from c have c': "careers = ''https://acme.com/careers''" by (simp add: build_row_fields)
  from j have "?row ''Job listings page URL'' = Some ''https://acme.com/careers''"
    unfolding w' c' by simp
  with w c w' c' acme_process have a:
    "\<exists>row log'. process_company acme_lib acme_net [] '' Acme '' = (Inr row, log')
      \<and> row ''Website URL'' = Some ''https://acme.com''
      \<and> row ''Careers Page URL'' = Some ''https://acme.com/careers''
      \<and> row ''Job listings page URL'' = Some ''https://acme.com/careers''"
    by blast
  have dead: "\<not> fst (head_ok dead_net h u)" for h u
    by (simp add: head_ok_def dead_net_def)
  then have none: "\<forall>j < length TLDS.
      \<not> fst (head_ok dead_net ([] @ probes (py_strip '' Acme '') TLDS j)
               (test_url (py_strip '' Acme '') (TLDS ! j)))"
    by simp
  note b = jobs_listing_url_fallback
    [where lib = acme_lib and net = dead_net and log = "[]" and name = "'' Acme ''",
     THEN conjunct2, THEN mp, OF none]
  have l: "list_all (\<lambda>j. \<not> fst (head_ok dead_net ([] @ probes (py_strip '' Acme '') TLDS j)
                             (test_url (py_strip '' Acme '') (TLDS ! j)))) [0, 1, 2, 3, 4, 5]"
    by (simp add: dead)
  from a l b show ?thesis by (intro conjI)
qed

text \<open>
  C9. In a row \<open>process_company\<close> returns, the LinkedIn URL is the template filled with
  the trimmed name, lowercased, spaces turned into hyphens; it is never the empty
  string, and for a name that trims to nothing it is
  \<open>https://www.linkedin.com/company//\<close>.
\<close>

theorem linkedin_always_populated:
  assumes "process_company lib net log name = (Inr row, log')"
  shows "row ''Linkedin URL''
           = Some (''https://www.linkedin.com/company/''
                   @ replace_space ''-'' (py_lower (py_strip name)) @ ''/'')
         \<and> row ''Linkedin URL'' \<noteq> Some []
         \<and> (py_strip name = [] \<longrightarrow>
              row ''Linkedin URL'' = Some ''https://www.linkedin.com/company//'')
         \<and> row ''Linkedin URL''
             = Some (''https://www.linkedin.com/company/''
                     @ map (\<lambda>c. if c = CHR '' '' then CHR ''-'' else c) (py_lower (py_strip name))
                     @ ''/'')"
proof -
  have hyphens: "replace_space ''-'' s = map (\<lambda>c. if c = CHR '' '' then CHR ''-'' else c) s" for s
    by (induction s) (simp_all add: replace_space_def)
  from process_company_fields [OF assms]
  have l: "row ''Linkedin URL'' = Some (linkedin_url (py_strip name))" by blast
  have e: "py_strip name = [] \<Longrightarrow> linkedin_url (py_strip name) = ''https://www.linkedin.com/company//''"
    by (simp add: blank_linkedin)
  from l e show ?thesis by (auto simp: linkedin_url_def hyphens)
qed

theorem linkedin_always_populated_witness:
  "py_strip ''   '' = []
   \<and> (\<exists>row log'. process_company acme_lib dead_net [] ''   '' = (Inr row, log')
         \<and> row ''Linkedin URL'' = Some ''https://www.linkedin.com/company//''
         \<and> row ''Linkedin URL'' \<noteq> Some [])
   \<and> (\<exists>row log'. process_company acme_lib acme_net [] '' Acme '' = (Inr row, log')
         \<and> row ''Linkedin URL'' = Some ''https://www.linkedin.com/company/acme/'')"
proof -
  note run = process_company_no_website [OF dead_blank_guess, of acme_lib]
  from linkedin_always_populated [OF run] blank_strip
  have "build_row (py_strip ''   '') [] (linkedin_url (py_strip ''   '')) [] [] [] []
          ''Linkedin URL'' = Some ''https://www.linkedin.com/company//''
        \<and> build_row (py_strip ''   '') [] (linkedin_url (py_strip ''   '')) [] [] [] []
          ''Linkedin URL'' \<noteq> Some []"
    by blast
  with run have a: "\<exists>row log'. process_company acme_lib dead_net [] ''   '' = (Inr row, log')
         \<and> row ''Linkedin URL'' = Some ''https://www.linkedin.com/company//''
         \<and> row ''Linkedin URL'' \<noteq> Some []"
    by blast
  have lower: "replace_space ''-'' (py_lower (py_strip '' Acme '')) = ''acme''"
    by code_simp
  from linkedin_always_populated [OF acme_process]
  have "build_row ''Acme'' ''https://acme.com'' ''https://www.linkedin.com/company/acme/''
                ''https://acme.com/careers'' ''https://acme.com/careers'' ''Internal''
                [\<lparr>job_url = ''https://acme.com/jobs/42'', job_title = ''Senior Engineer'',
                  job_location = [], job_date = []\<rparr>] ''Linkedin URL''
          = Some ''https://www.linkedin.com/company/acme/''"
    by (simp add: lower)
  with acme_process have b: "\<exists>row log'. process_company acme_lib acme_net [] '' Acme '' = (Inr row, log')
         \<and> row ''Linkedin URL'' = Some ''https://www.linkedin.com/company/acme/''"
    by blast
  from blank_strip a b show ?thesis by (intro conjI)
qed

lemma guess_website_same:
  assumes "same_answers net1 net2"
  shows "fst (guess_website net1 l1 nm tlds) = fst (guess_website net2 l2 nm tlds)"
proof (induction tlds arbitrary: l1 l2)
  case Nil
  show ?case by simp
next
  case (Cons tld tlds)
  obtain ok1 m1 where h1: "head_ok net1 l1 (test_url nm tld) = (ok1, m1)"
    by (cases "head_ok net1 l1 (test_url nm tld)")
  obtain ok2 m2 where h2: "head_ok net2 l2 (test_url nm tld) = (ok2, m2)"
    by (cases "head_ok net2 l2 (test_url nm tld)")
  from assms have "fst (head_ok net1 l1 (test_url nm tld)) = fst (head_ok net2 l2 (test_url nm tld))"
    unfolding same_answers_def by blast
  with h1 h2 have "ok1 = ok2" by simp
  with h1 h2 Cons.IH [of m1 m2] show ?case by simp
qed

lemma find_careers_page_same:
  assumes "same_answers net1 net2"
  shows "fst (find_careers_page lib net1 l1 w) = fst (find_careers_page lib net2 l2 w)"
proof -
  obtain r1 m1 where g1: "safe_get net1 l1 w = (r1, m1)" by (cases "safe_get net1 l1 w")
  obtain r2 m2 where g2: "safe_get net2 l2 w = (r2, m2)" by (cases "safe_get net2 l2 w")
  from assms have "fst (safe_get net1 l1 w) = fst (safe_get net2 l2 w)"
    unfolding same_answers_def by blast
  with g1 g2 have "r1 = r2" by simp
  with g1 g2 show ?thesis
    by (simp add: find_careers_page_def split: option.splits)
qed

lemma scrape_jobs_simple_same:
  assumes "same_answers net1 net2"
  shows "fst (scrape_jobs_simple lib net1 l1 url) = fst (scrape_jobs_simple lib net2 l2 url)"
proof -
  from assms have "fst (safe_get net1 l1 url) = fst (safe_get net2 l2 url)"
    unfolding same_answers_def by blast
  then show ?thesis
    by (simp add: scrape_jobs_simple_loop fetched_anchors_def)
qed

text \<open>
  C8. Two runs of \<open>process_company\<close> on the same name, with the same libraries, over two
  networks in which every probe and every fetch of a URL gives the same answer (in both
  runs, whatever was requested before), give the same result.
\<close>

theorem process_company_deterministic:
  assumes "same_answers net1 net2"
  shows "fst (process_company lib net1 log1 name) = fst (process_company lib net2 log2 name)"
proof -
  let ?nc = "py_strip name"
  obtain w1 l1 where g1: "guess_website net1 log1 ?nc TLDS = (w1, l1)"
    by (cases "guess_website net1 log1 ?nc TLDS")
  obtain w2 l2 where g2: "guess_website net2 log2 ?nc TLDS = (w2, l2)"
    by (cases "guess_website net2 log2 ?nc TLDS")
  from guess_website_same [OF assms, of log1 ?nc TLDS log2] g1 g2 have w: "w2 = w1" by simp
  obtain c1 m1 where c1: "find_careers_page lib net1 l1 w1 = (c1, m1)"
    by (cases "find_careers_page lib net1 l1 w1")
  obtain c2 m2 where c2: "find_careers_page lib net2 l2 w1 = (c2, m2)"
    by (cases "find_careers_page lib net2 l2 w1")
  from find_careers_page_same [OF assms, of lib l1 w1 l2] c1 c2 have c: "c2 = c1" by simp
  show ?thesis
  proof (cases c1)
    case (Inl e)
    with g1 g2 c1 c2 w c show ?thesis by (simp add: process_company_def Let_def)
  next
    case (Inr careers)
    let ?ju = "py_or careers (py_or w1 [])"
    obtain j1 k1 where s1: "scrape_jobs_simple lib net1 m1 ?ju = (j1, k1)"
      by (cases "scrape_jobs_simple lib net1 m1 ?ju")
    obtain j2 k2 where s2: "scrape_jobs_simple lib net2 m2 ?ju = (j2, k2)"
      by (cases "scrape_jobs_simple lib net2 m2 ?ju")
    from scrape_jobs_simple_same [OF assms, of lib m1 ?ju m2] s1 s2 have j: "j2 = j1" by simp
    from Inr g1 g2 c1 c2 w c s1 s2 j show ?thesis
      by (cases j1) (simp_all add: process_company_def Let_def)
  qed
qed

lemma acme_mirror_same: "same_answers acme_net acme_mirror_net"
  unfolding same_answers_def
  by (auto simp: head_ok_def safe_get_def acme_net_def acme_mirror_net_def)

theorem process_company_deterministic_witness:
  "same_answers acme_net acme_mirror_net
   \<and> acme_net [] (HEAD, ''https://acme.com'') \<noteq> acme_mirror_net [] (HEAD, ''https://acme.com'')
   \<and> fst (process_company acme_lib acme_net [] '' Acme '')
       = fst (process_company acme_lib acme_mirror_net [(GET, ''https://acme.com/press'')] '' Acme '')"
proof -
  have differ: "acme_net [] (HEAD, ''https://acme.com'')
                  \<noteq> acme_mirror_net [] (HEAD, ''https://acme.com'')"
    by (simp add: acme_net_def acme_mirror_net_def)
  from acme_mirror_same differ
    process_company_deterministic [OF acme_mirror_same, of acme_lib "[]" "'' Acme ''"
      "[(GET, ''https://acme.com/press'')]"]
  show ?thesis by (intro conjI)
qed

lemma acme_broken_guess:
  "guess_website acme_broken_net [] (py_strip ''Acme'') TLDS
     = (''https://acme.com'', [(HEAD, ''https://acme.com'')])"
  by code_simp

lemma acme_broken_careers_page:
  "find_careers_page acme_lib acme_broken_net [(HEAD, ''https://acme.com'')] ''https://acme.com''
     = (Inl ValueError, [(HEAD, ''https://acme.com''), (GET, ''https://acme.com'')])"
  by code_simp

lemma find_careers_returns:
  assumes "\<forall>base href. \<exists>u. urljoin lib base href = Inr u"
  shows "\<exists>c. find_careers lib base_url html = Inr c"
  using assms
  by (simp add: find_careers_def find_careers_loop_find split: option.splits)

lemma job_of_returns:
  assumes "\<forall>base href. \<exists>u. urljoin lib base href = Inr u"
  shows "\<exists>j. job_of lib url a = Inr j"
proof (cases "startswith (a_href a) ''http''")
  case True
  then show ?thesis by (simp add: job_of_def)
next
  case False
  from assms obtain u where "urljoin lib url (a_href a) = Inr u" by blast
  with False show ?thesis by (simp add: job_of_def)
qed

lemma scrape_jobs_simple_returns:
  assumes "\<forall>base href. \<exists>u. urljoin lib base href = Inr u"
  shows "\<exists>jobs. fst (scrape_jobs_simple lib net log url) = Inr jobs \<and> length jobs \<le> 3"
proof (cases "fst (scrape_jobs_simple lib net log url)")
  case (Inl e)
  then have "scrape_loop lib url (fetched_anchors lib net log url) [] = Inl e"
    by (simp add: scrape_jobs_simple_loop)
  from scrape_loop_Inl [OF _ this] obtain a where "job_of lib url a = Inl e" by auto
  with job_of_returns [OF assms, of url a] show ?thesis by simp
next
  case (Inr jobs)
  from scrape_jobs_simple_Inr [OF this] have "length jobs \<le> 3"
    by (rule length_of_map_Inr)
  with Inr show ?thesis by simp
qed

lemma process_company_completes:
  assumes "\<forall>base href. \<exists>u. urljoin lib base href = Inr u"
  shows "\<exists>row log' jobs.
           process_company lib net log name = (Inr row, log')
           \<and> dom row = set COLUMNS
           \<and> row ''Company Name'' = Some (py_strip name)
           \<and> length jobs \<le> 3
           \<and> (\<forall>i < 3. row (job_key i ''URL'') = Some (slot jobs i job_url)
                 \<and> row (job_key i ''title'') = Some (slot jobs i job_title)
                 \<and> row (job_key i ''location'') = Some (slot jobs i job_location)
                 \<and> row (job_key i ''date'') = Some (slot jobs i job_date))"
proof -
  let ?nc = "py_strip name"
  obtain w l1 where g: "guess_website net log ?nc TLDS = (w, l1)"
    by (cases "guess_website net log ?nc TLDS")
  obtain cr l2 where c: "find_careers_page lib net l1 w = (cr, l2)"
    by (cases "find_careers_page lib net l1 w")
  have "\<exists>careers. cr = Inr careers"
    using c find_careers_returns [OF assms, of w]
    by (auto simp: find_careers_page_def split: if_splits option.splits prod.splits)
  then obtain careers where cr: "cr = Inr careers" by blast
  let ?ju = "py_or careers (py_or w [])"
  obtain jr l3 where s: "(if ?ju \<noteq> [] then scrape_jobs_simple lib net l2 ?ju else (Inr [], l2))
                           = (jr, l3)"
    by (cases "if ?ju \<noteq> [] then scrape_jobs_simple lib net l2 ?ju else (Inr [], l2)")
  have "\<exists>jobs. jr = Inr jobs \<and> length jobs \<le> 3"
  proof (cases "?ju \<noteq> []")
    case True
    with s have "fst (scrape_jobs_simple lib net l2 ?ju) = jr" by simp
    with scrape_jobs_simple_returns [OF assms, of net l2 ?ju] show ?thesis by simp
  next
    case False
    with s show ?thesis by auto
  qed
  then obtain jobs where jr: "jr = Inr jobs" and len: "length jobs \<le> 3" by blast
  let ?row = "build_row ?nc w (linkedin_url ?nc) careers ?ju (detect_ats ?ju) jobs"
  have run: "process_company lib net log name = (Inr ?row, l3)"
    using g c cr s jr by (simp add: process_company_def Let_def)
  have slots: "\<forall>i < 3. ?row (job_key i ''URL'') = Some (slot jobs i job_url)
                 \<and> ?row (job_key i ''title'') = Some (slot jobs i job_title)
                 \<and> ?row (job_key i ''location'') = Some (slot jobs i job_location)
                 \<and> ?row (job_key i ''date'') = Some (slot jobs i job_date)"
  proof (intro allI impI)
    fix i :: nat
    assume "i < 3"
    then consider "i = 0" | "i = Suc 0" | "i = 2" by linarith
    then show "?row (job_key i ''URL'') = Some (slot jobs i job_url)
                 \<and> ?row (job_key i ''title'') = Some (slot jobs i job_title)
                 \<and> ?row (job_key i ''location'') = Some (slot jobs i job_location)
                 \<and> ?row (job_key i ''date'') = Some (slot jobs i job_date)"
      by cases (simp_all add: job_key_simps build_row_slots)
  qed
  from run len slots show ?thesis
    by (intro exI [of _ ?row] exI [of _ l3] exI [of _ jobs])
       (simp add: dom_build_row build_row_fields)
qed

text \<open>
  C1. \<open>process_company\<close> does not return a row for every name: on the site whose
  homepage carries the careers link \<open>//[\<close>, \<open>urljoin\<close> raises \<open>ValueError\<close>, nothing
  between it and the caller catches it, and the run ends after the probe and the fetch
  of the homepage.
\<close>

theorem process_company_raises_on_unclosed_bracket:
  "process_company acme_lib acme_broken_net [] ''Acme''
     = (Inl ValueError, [(HEAD, ''https://acme.com''), (GET, ''https://acme.com'')])
   \<and> select_a_href acme_lib acme_broken_home = [\<lparr>a_href = ''//['', a_text = ''Careers''\<rparr>]
   \<and> urljoin acme_lib ''https://acme.com'' ''//['' = Inl ValueError"
proof (intro conjI)
  show "process_company acme_lib acme_broken_net [] ''Acme''
     = (Inl ValueError, [(HEAD, ''https://acme.com''), (GET, ''https://acme.com'')])"
    by (simp add: process_company_def Let_def acme_broken_guess acme_broken_careers_page)
  show "select_a_href acme_lib acme_broken_home = [\<lparr>a_href = ''//['', a_text = ''Careers''\<rparr>]"
    by code_simp
  show "urljoin acme_lib ''https://acme.com'' ''//['' = Inl ValueError"
    by code_simp
qed

end
